theory Spec2Isabelle
  imports Main
begin

section \<open>Storage: the rows and tables the services read and write\<close>

text \<open>
  The services of \<^verbatim>\<open>license.service.ts\<close> and \<^verbatim>\<open>update.service.ts\<close> keep all their
  state in the relational store behind the Prisma client. A table is the list of its
  rows in storage order; a row is a record of its columns. A \<^verbatim>\<open>Date\<close> is its number of
  milliseconds, an integer; a nullable column is an \<open>option\<close>. All readings of the clock
  within one call (\<^verbatim>\<open>new Date()\<close>) are the one instant \<open>now\<close> the call is given. Logging
  is not part of the model.
\<close>

text \<open>
  Modelled from the spec: the schema \<^verbatim>\<open>prisma/schema.prisma\<close>, which is not among the
  sources. The columns are those the services read and write, as the data model of the
  spec lists them. A row's id is assigned by the store (here from the counter \<open>nextId\<close>);
  license keys and release versions are unique; on insertion a timestamp the service
  does not give is the time of insertion, a counter starts at 0 and a nullable column
  is empty.
\<close>

type_synonym date = int

record License =
  lic_id :: nat
  lic_licenseKey :: string
  lic_email :: "string option"
  lic_plan :: string
  lic_maxDevices :: int
  lic_isActive :: bool
  lic_expiresAt :: "date option"
  lic_activatedAt :: "date option"
  lic_deviceCount :: int
  lic_createdAt :: date

record LicenseActivation =
  act_id :: nat
  act_licenseId :: nat
  act_machineId :: string
  act_deviceName :: "string option"
  act_osVersion :: "string option"
  act_appVersion :: "string option"
  act_isActive :: bool
  act_activatedAt :: date
  act_lastSeenAt :: date
  act_deactivatedAt :: "date option"

datatype releaseType = normal | forced | beta

record Update =
  upd_id :: nat
  upd_version :: string
  upd_buildNumber :: int
  upd_releaseType :: releaseType
  upd_filename :: string
  upd_fileSize :: int
  upd_checksum :: string
  upd_releaseNotes :: string
  upd_forceUpdate :: bool
  upd_isActive :: bool
  upd_downloadCount :: int

record UpdateHistory =
  uh_id :: nat
  uh_updateId :: nat
  uh_userId :: string
  uh_fromVersion :: string
  uh_toVersion :: string
  uh_updateType :: string
  uh_status :: string
  uh_platform :: "string option"
  uh_appVersion :: "string option"
  uh_errorMessage :: "string option"
  uh_createdAt :: date

record db =
  licenses :: "License list"
  licenseActivations :: "LicenseActivation list"
  updates :: "Update list"
  updateHistories :: "UpdateHistory list"
  nextId :: nat

text \<open>
  The error classes of \<^verbatim>\<open>utils/errors\<close> that the services and the middleware throw,
  each with its message, and the store's own failure on a unique or missing row.
\<close>

datatype app_error =
    BadRequestError string
  | NotFoundError string
  | ConflictError string
  | PrismaClientKnownRequestError

subsection \<open>The Prisma calls the services make\<close>

text \<open>\<^verbatim>\<open>prisma.license.findUnique({ where: { licenseKey } })\<close>\<close>

definition license_findUnique :: "db \<Rightarrow> string \<Rightarrow> License option" where
  "license_findUnique s key = find (\<lambda>l. lic_licenseKey l = key) (licenses s)"

text \<open>\<^verbatim>\<open>include: { activations: true }\<close>: the activation rows of a license.\<close>

definition activations_of :: "db \<Rightarrow> License \<Rightarrow> LicenseActivation list" where
  "activations_of s l = filter (\<lambda>a. act_licenseId a = lic_id l) (licenseActivations s)"

text \<open>\<^verbatim>\<open>include: { activations: { where: { isActive: true } } }\<close>\<close>

definition active_activations_of :: "db \<Rightarrow> License \<Rightarrow> LicenseActivation list" where
  "active_activations_of s l = filter act_isActive (activations_of s l)"

text \<open>\<^verbatim>\<open>prisma.licenseActivation.update({ where: { id }, data })\<close>\<close>

definition licenseActivation_update ::
  "nat \<Rightarrow> (LicenseActivation \<Rightarrow> LicenseActivation) \<Rightarrow> db \<Rightarrow> db" where
  "licenseActivation_update i f s =
     s\<lparr>licenseActivations := map (\<lambda>a. if act_id a = i then f a else a) (licenseActivations s)\<rparr>"

text \<open>\<^verbatim>\<open>prisma.licenseActivation.create({ data })\<close>: the row gets a fresh id.\<close>

definition licenseActivation_create :: "LicenseActivation \<Rightarrow> db \<Rightarrow> db" where
  "licenseActivation_create a s =
     s\<lparr>licenseActivations := licenseActivations s @ [a\<lparr>act_id := nextId s\<rparr>],
       nextId := Suc (nextId s)\<rparr>"

text \<open>\<^verbatim>\<open>prisma.license.update({ where: { id }, data })\<close>\<close>

definition license_update :: "nat \<Rightarrow> (License \<Rightarrow> License) \<Rightarrow> db \<Rightarrow> db" where
  "license_update i f s =
     s\<lparr>licenses := map (\<lambda>l. if lic_id l = i then f l else l) (licenses s)\<rparr>"

text \<open>
  In the \<^verbatim>\<open>data\<close> of an update, a field that is \<^verbatim>\<open>undefined\<close> leaves the column as it
  is; a value overwrites it.
\<close>

definition set_column :: "'a option \<Rightarrow> 'a option \<Rightarrow> 'a option" where
  "set_column new old = (case new of None \<Rightarrow> old | Some v \<Rightarrow> Some v)"

section \<open>\<^verbatim>\<open>utils/licenseKey.ts\<close>\<close>

text \<open>
  \<^verbatim>\<open>isValidLicenseKeyFormat\<close> tests the key against
  \<^verbatim>\<open>/^MACMAN-[A-Z0-9]{5}-[A-Z0-9]{5}-[A-Z0-9]{5}$/\<close>: the literal prefix, then three
  segments of exactly five characters of \<^verbatim>\<open>[A-Z0-9]\<close>, separated by hyphens, and
  nothing before or after.
\<close>

definition isKeyChar :: "char \<Rightarrow> bool" where
  "isKeyChar c =
     (let n = (of_char c :: nat) in (65 \<le> n \<and> n \<le> 90) \<or> (48 \<le> n \<and> n \<le> 57))"

definition isKeySegment :: "string \<Rightarrow> bool" where
  "isKeySegment seg = (length seg = 5 \<and> list_all isKeyChar seg)"

definition isValidLicenseKeyFormat :: "string \<Rightarrow> bool" where
  "isValidLicenseKeyFormat key =
     (take 7 key = ''MACMAN-''
      \<and> isKeySegment (take 5 (drop 7 key))
      \<and> take 1 (drop 12 key) = ''-''
      \<and> isKeySegment (take 5 (drop 13 key))
      \<and> take 1 (drop 18 key) = ''-''
      \<and> isKeySegment (drop 19 key))"

section \<open>\<^verbatim>\<open>LicenseService\<close>\<close>

record ValidateLicenseDto =
  vl_licenseKey :: string
  vl_machineId :: string
  vl_deviceName :: "string option"
  vl_osVersion :: "string option"
  vl_appVersion :: "string option"

datatype errorType = invalid_key | machine_mismatch | max_devices_reached | inactive | expired

record LicenseData =
  ld_licenseKey :: string
  ld_plan :: string
  ld_maxDevices :: int
  ld_deviceCount :: int
  ld_isActive :: bool

record LicenseResponse =
  lr_valid :: bool
  lr_message :: string
  lr_data :: "LicenseData option"
  lr_errorType :: "errorType option"
  lr_purchaseUrl :: "string option"

text \<open>A template literal prints a number in decimal, as \<^verbatim>\<open>String(n)\<close> does.\<close>

definition digit_char :: "nat \<Rightarrow> char" where
  "digit_char k = ''0123456789'' ! k"

fun decimal :: "nat \<Rightarrow> string" where
  "decimal n = (if 10 \<le> n then decimal (n div 10) @ [digit_char (n mod 10)] else [digit_char n])"

declare decimal.simps [simp del]

definition number_toString :: "int \<Rightarrow> string" where
  "number_toString i = (if 0 \<le> i then decimal (nat i) else CHR ''-'' # decimal (nat (- i)))"

subsection \<open>\<^verbatim>\<open>validateLicense\<close>\<close>

text \<open>
  The lookup of \<^verbatim>\<open>validateLicense\<close>: the license of that key with its active
  activations, as \<^verbatim>\<open>findUnique\<close> returns them.
\<close>

definition validateLicense_lookup :: "db \<Rightarrow> string \<Rightarrow> (License \<times> LicenseActivation list) option" where
  "validateLicense_lookup s key =
     (case license_findUnique s key of
        None \<Rightarrow> None
      | Some l \<Rightarrow> Some (l, active_activations_of s l))"

text \<open>\<^verbatim>\<open>license.expiresAt && license.expiresAt < new Date()\<close>\<close>

definition isExpired :: "License \<Rightarrow> date \<Rightarrow> bool" where
  "isExpired license now = (case lic_expiresAt license of None \<Rightarrow> False | Some e \<Rightarrow> e < now)"

text \<open>
  What \<^verbatim>\<open>validateLicense\<close> does after the lookup has returned: it decides on the
  license and activations it was handed (\<open>found\<close>) and writes to the store as it is
  then (\<open>s\<close>).
\<close>

definition validateLicense_decide ::
  "(License \<times> LicenseActivation list) option \<Rightarrow> db \<Rightarrow> date \<Rightarrow> ValidateLicenseDto
     \<Rightarrow> LicenseResponse \<times> db" where
  "validateLicense_decide found s now d =
     (case found of
        None \<Rightarrow>
          (\<lparr>lr_valid = False, lr_message = ''License key not found'', lr_data = None,
            lr_errorType = Some invalid_key, lr_purchaseUrl = None\<rparr>, s)
      | Some (license, activations) \<Rightarrow>
          if \<not> lic_isActive license then
            (\<lparr>lr_valid = False, lr_message = ''This license has been deactivated'',
              lr_data = None, lr_errorType = Some inactive, lr_purchaseUrl = None\<rparr>, s)
          else if isExpired license now then
            (\<lparr>lr_valid = False, lr_message = ''This license has expired'',
              lr_data = None, lr_errorType = Some expired, lr_purchaseUrl = None\<rparr>, s)
          else
            (case find (\<lambda>a. act_machineId a = vl_machineId d \<and> act_isActive a) activations of
               Some existingActivation \<Rightarrow>
                 (\<lparr>lr_valid = True, lr_message = ''License validated successfully'',
                   lr_data = Some \<lparr>ld_licenseKey = lic_licenseKey license,
                     ld_plan = lic_plan license, ld_maxDevices = lic_maxDevices license,
                     ld_deviceCount = int (length activations),
                     ld_isActive = lic_isActive license\<rparr>,
                   lr_errorType = None, lr_purchaseUrl = None\<rparr>,
                  licenseActivation_update (act_id existingActivation)
                    (\<lambda>a. a\<lparr>act_lastSeenAt := now,
                       act_osVersion := set_column (vl_osVersion d) (act_osVersion a),
                       act_appVersion := set_column (vl_appVersion d) (act_appVersion a)\<rparr>) s)
             | None \<Rightarrow>
                 (let activeDeviceCount = int (length (filter act_isActive activations)) in
                  if activeDeviceCount \<ge> lic_maxDevices license then
                    (\<lparr>lr_valid = False,
                      lr_message = ''Maximum number of devices ('' @
                        number_toString (lic_maxDevices license) @ '') reached for this license'',
                      lr_data = None, lr_errorType = Some max_devices_reached,
                      lr_purchaseUrl = Some ''https://macman.dev/#pricing''\<rparr>, s)
                  else
                    (\<lparr>lr_valid = True, lr_message = ''License activated successfully'',
                      lr_data = Some \<lparr>ld_licenseKey = lic_licenseKey license,
                        ld_plan = lic_plan license, ld_maxDevices = lic_maxDevices license,
                        ld_deviceCount = activeDeviceCount + 1,
                        ld_isActive = lic_isActive license\<rparr>,
                      lr_errorType = None, lr_purchaseUrl = None\<rparr>,
                     license_update (lic_id license)
                       (\<lambda>l. l\<lparr>lic_activatedAt := Some now,
                          lic_deviceCount := activeDeviceCount + 1\<rparr>)
                       (licenseActivation_create
                          \<lparr>act_id = 0, act_licenseId = lic_id license,
                            act_machineId = vl_machineId d, act_deviceName = vl_deviceName d,
                            act_osVersion = vl_osVersion d, act_appVersion = vl_appVersion d,
                            act_isActive = True, act_activatedAt = now, act_lastSeenAt = now,
                            act_deactivatedAt = None\<rparr> s)))))"

definition validateLicense :: "db \<Rightarrow> date \<Rightarrow> ValidateLicenseDto \<Rightarrow> LicenseResponse \<times> db" where
  "validateLicense s now d =
     (if \<not> isValidLicenseKeyFormat (vl_licenseKey d) then
        (\<lparr>lr_valid = False, lr_message = ''Invalid license key format'', lr_data = None,
          lr_errorType = Some invalid_key, lr_purchaseUrl = None\<rparr>, s)
      else validateLicense_decide (validateLicense_lookup s (vl_licenseKey d)) s now d)"

text \<open>
  Two validations whose lookups both return before either writes: the runtime may
  resume the two calls in this order at their \<^verbatim>\<open>await\<close>s, since nothing (no transaction,
  no conditional write) ties a call's lookup to its writes. Both keys have passed the
  format check.
\<close>

definition validateLicense_interleaved ::
  "db \<Rightarrow> date \<Rightarrow> ValidateLicenseDto \<Rightarrow> ValidateLicenseDto
     \<Rightarrow> LicenseResponse \<times> LicenseResponse \<times> db" where
  "validateLicense_interleaved s now d1 d2 =
     (let found1 = validateLicense_lookup s (vl_licenseKey d1);
          found2 = validateLicense_lookup s (vl_licenseKey d2);
          (r1, s1) = validateLicense_decide found1 s now d1;
          (r2, s2) = validateLicense_decide found2 s1 now d2
      in (r1, r2, s2))"

text \<open>A run of validations, one after the other, each at its own instant.\<close>

fun validateAll :: "db \<Rightarrow> (date \<times> ValidateLicenseDto) list \<Rightarrow> LicenseResponse list \<times> db" where
  "validateAll s [] = ([], s)"
| "validateAll s ((now, d) # rest) =
     (let (r, s1) = validateLicense s now d;
          (rs, s2) = validateAll s1 rest
      in (r # rs, s2))"

subsection \<open>\<^verbatim>\<open>deactivateLicense\<close> and \<^verbatim>\<open>deactivateDevice\<close>\<close>

text \<open>
  \<^verbatim>\<open>deactivateLicense\<close> is one \<^verbatim>\<open>prisma.license.update\<close> by key, which fails in the store
  when no row has the key.
\<close>

definition deactivateLicense :: "db \<Rightarrow> string \<Rightarrow> (app_error + License) \<times> db" where
  "deactivateLicense s licenseKey =
     (case license_findUnique s licenseKey of
        None \<Rightarrow> (Inl PrismaClientKnownRequestError, s)
      | Some license \<Rightarrow>
          (Inr (license\<lparr>lic_isActive := False\<rparr>),
           s\<lparr>licenses := map (\<lambda>l. if lic_licenseKey l = licenseKey
                                   then l\<lparr>lic_isActive := False\<rparr> else l) (licenses s)\<rparr>))"

text \<open>\<^verbatim>\<open>deactivateDevice\<close> returns \<^verbatim>\<open>{ success: true }\<close>, here \<open>Inr ()\<close>, or throws.\<close>

definition deactivateDevice :: "db \<Rightarrow> date \<Rightarrow> string \<Rightarrow> string \<Rightarrow> (app_error + unit) \<times> db" where
  "deactivateDevice s now licenseKey machineId =
     (case license_findUnique s licenseKey of
        None \<Rightarrow> (Inl (NotFoundError ''License not found''), s)
      | Some license \<Rightarrow>
          (case find (\<lambda>a. act_machineId a = machineId \<and> act_isActive a)
                  (activations_of s license) of
             None \<Rightarrow> (Inl (NotFoundError ''Device activation not found''), s)
           | Some activation \<Rightarrow>
               (Inr (),
                license_update (lic_id license)
                  (\<lambda>l. l\<lparr>lic_deviceCount := lic_deviceCount license - 1\<rparr>)
                  (licenseActivation_update (act_id activation)
                     (\<lambda>a. a\<lparr>act_isActive := False, act_deactivatedAt := Some now\<rparr>) s))))"

subsection \<open>\<^verbatim>\<open>createLicense\<close> behind its route\<close>

text \<open>
  The body of \<^verbatim>\<open>POST /admin/licenses\<close> after JSON parsing, and what \<^verbatim>\<open>createLicenseSchema\<close>
  makes of it. The schema accepts a \<^verbatim>\<open>plan\<close> of the four enumerated strings, an optional
  \<^verbatim>\<open>max_devices\<close> that is a positive integer, and an optional \<^verbatim>\<open>email\<close> that zod takes for
  an address (its test, library code, is the parameter \<open>isEmail\<close>). Parsing gives the
  typed value, whose plan is one of the four (the type of \<^verbatim>\<open>CreateLicenseDto.plan\<close>), or
  the issues, here the paths of the fields that fail. \<^verbatim>\<open>validateBody\<close> turns the issues
  into a \<^verbatim>\<open>BadRequestError\<close>, whose message keeps here the paths and leaves out zod's
  wording of each issue.
\<close>

datatype plan = Individual | Two_Devices | Five_Devices | Enterprise

definition plan_name :: "plan \<Rightarrow> string" where
  "plan_name p =
     (case p of Individual \<Rightarrow> ''Individual'' | Two_Devices \<Rightarrow> ''2 Devices''
      | Five_Devices \<Rightarrow> ''5 Devices'' | Enterprise \<Rightarrow> ''Enterprise'')"

definition plan_tiers :: "string list" where
  "plan_tiers = [''Individual'', ''2 Devices'', ''5 Devices'', ''Enterprise'']"

definition parse_plan :: "string \<Rightarrow> plan option" where
  "parse_plan name =
     map_of [(''Individual'', Individual), (''2 Devices'', Two_Devices),
             (''5 Devices'', Five_Devices), (''Enterprise'', Enterprise)] name"

record CreateLicenseBody =
  cb_email :: "string option"
  cb_plan :: string
  cb_max_devices :: "int option"

record CreateLicenseInput =
  ci_email :: "string option"
  ci_plan :: plan
  ci_max_devices :: "int option"

record CreateLicenseDto =
  cl_email :: "string option"
  cl_plan :: plan
  cl_maxDevices :: "int option"

definition email_issues :: "(string \<Rightarrow> bool) \<Rightarrow> string option \<Rightarrow> string list" where
  "email_issues isEmail email =
     (case email of None \<Rightarrow> [] | Some e \<Rightarrow> if isEmail e then [] else [''email''])"

definition max_devices_issues :: "int option \<Rightarrow> string list" where
  "max_devices_issues max_devices =
     (case max_devices of None \<Rightarrow> [] | Some n \<Rightarrow> if 0 < n then [] else [''max_devices''])"

definition createLicenseSchema ::
  "(string \<Rightarrow> bool) \<Rightarrow> CreateLicenseBody \<Rightarrow> string list + CreateLicenseInput" where
  "createLicenseSchema isEmail body =
     (case parse_plan (cb_plan body) of
        None \<Rightarrow>
          Inl (email_issues isEmail (cb_email body) @ [''plan'']
               @ max_devices_issues (cb_max_devices body))
      | Some p \<Rightarrow>
          (case email_issues isEmail (cb_email body) @ max_devices_issues (cb_max_devices body) of
             [] \<Rightarrow> Inr \<lparr>ci_email = cb_email body, ci_plan = p,
                       ci_max_devices = cb_max_devices body\<rparr>
           | issues \<Rightarrow> Inl issues))"

fun join_comma :: "string list \<Rightarrow> string" where
  "join_comma [] = []"
| "join_comma [x] = x"
| "join_comma (x # y # ys) = x @ '', '' @ join_comma (y # ys)"

definition validateBody :: "('b \<Rightarrow> string list + 'c) \<Rightarrow> 'b \<Rightarrow> app_error + 'c" where
  "validateBody schema body =
     (case schema body of
        Inr validated \<Rightarrow> Inr validated
      | Inl issues \<Rightarrow> Inl (BadRequestError (''Validation failed: '' @ join_comma issues)))"

text \<open>
  \<^verbatim>\<open>getMaxDevicesForPlan\<close>: the table's entry, or 1 where the table has none
  (\<^verbatim>\<open>planMap[plan] || 1\<close>). Its one caller passes \<^verbatim>\<open>data.plan\<close>, a plan of the DTO's
  type, so the function is given here on that type.
\<close>

definition planMap :: "(string \<times> int) list" where
  "planMap = [(''Individual'', 1), (''2 Devices'', 2), (''5 Devices'', 5), (''Enterprise'', 999)]"

definition getMaxDevicesForPlan :: "plan \<Rightarrow> int" where
  "getMaxDevicesForPlan plan =
     (case map_of planMap (plan_name plan) of None \<Rightarrow> 1 | Some n \<Rightarrow> if n = 0 then 1 else n)"

text \<open>
  \<^verbatim>\<open>createLicense\<close>. The key drawn by \<^verbatim>\<open>generateLicenseKey()\<close> from the random source is
  the argument \<open>licenseKey\<close>. \<^verbatim>\<open>data.maxDevices || ...\<close> takes the table's value when the
  override is absent or 0. The store refuses a row whose key it already has.
\<close>

text \<open>
  Modelled from the spec: the column defaults of \<^verbatim>\<open>prisma/schema.prisma\<close>, which is not
  among the sources. The spec has a license "created active, with device count zero",
  with an optional expiration; so \<open>lic_deviceCount\<close> starts at 0, and \<open>lic_expiresAt\<close> and
  \<open>lic_activatedAt\<close> start empty.
\<close>

definition createLicense :: "db \<Rightarrow> date \<Rightarrow> string \<Rightarrow> CreateLicenseDto \<Rightarrow> (app_error + License) \<times> db" where
  "createLicense s now licenseKey data =
     (let maxDevices = (case cl_maxDevices data of
                          None \<Rightarrow> getMaxDevicesForPlan (cl_plan data)
                        | Some n \<Rightarrow> if n = 0 then getMaxDevicesForPlan (cl_plan data) else n);
          license = \<lparr>lic_id = nextId s, lic_licenseKey = licenseKey, lic_email = cl_email data,
                     lic_plan = plan_name (cl_plan data), lic_maxDevices = maxDevices,
                     lic_isActive = True, lic_expiresAt = None, lic_activatedAt = None,
                     lic_deviceCount = 0, lic_createdAt = now\<rparr>
      in case license_findUnique s licenseKey of
           Some _ \<Rightarrow> (Inl PrismaClientKnownRequestError, s)
         | None \<Rightarrow> (Inr license, s\<lparr>licenses := licenses s @ [license], nextId := Suc (nextId s)\<rparr>))"

text \<open>
  The route: \<^verbatim>\<open>validateBody(createLicenseSchema)\<close>, then the controller, which hands
  \<^verbatim>\<open>{ email, plan, maxDevices: max_devices }\<close> to the service.
\<close>

definition createLicense_route ::
  "(string \<Rightarrow> bool) \<Rightarrow> db \<Rightarrow> date \<Rightarrow> string \<Rightarrow> CreateLicenseBody \<Rightarrow> (app_error + License) \<times> db" where
  "createLicense_route isEmail s now licenseKey body =
     (case validateBody (createLicenseSchema isEmail) body of
        Inl e \<Rightarrow> (Inl e, s)
      | Inr b \<Rightarrow> createLicense s now licenseKey
                  \<lparr>cl_email = ci_email b, cl_plan = ci_plan b, cl_maxDevices = ci_max_devices b\<rparr>)"

section \<open>\<^verbatim>\<open>versionToBuildNumber\<close>\<close>

text \<open>
  \<^verbatim>\<open>version.split('.')\<close>: the pieces between the dots; a string with no dot is one piece.
\<close>

fun split_dot :: "string \<Rightarrow> string list" where
  "split_dot [] = [[]]"
| "split_dot (c # cs) =
     (if c = CHR ''.'' then [] # split_dot cs
      else (case split_dot cs of [] \<Rightarrow> [[c]] | p # ps \<Rightarrow> (c # p) # ps))"

text \<open>
  A JavaScript number as far as this model computes it. \<open>Num n\<close> is the integer \<open>n\<close>,
  which double precision holds exactly (\<open>\<bar>n\<bar> \<le> 2 ^ 53\<close>); \<open>NaN\<close> is \<^verbatim>\<open>NaN\<close>;
  \<open>Uncomputed\<close> is a value that is left uncomputed here: a number that is not an
  integer, or lies beyond \<open>2 ^ 53\<close>, or \<^verbatim>\<open>Infinity\<close>, or the result of arithmetic on one
  of these.
\<close>

datatype jsnumber = Num int | NaN | Uncomputed

text \<open>
  \<^verbatim>\<open>Number(piece)\<close> first strips white space and line terminators from both ends of
  the piece. A string is the list of the bytes of its UTF-8 encoding: \<open>space_width\<close> is
  the number of bytes of the white-space character a string starts with (TAB, LF, VT,
  FF, CR, SP; U+00A0; U+1680, U+2000 to U+200A, U+2028, U+2029, U+202F, U+205F, U+3000,
  U+FEFF), and 0 when it starts with none.
\<close>

definition wide_space :: "nat \<Rightarrow> nat \<Rightarrow> nat \<Rightarrow> bool" where
  "wide_space x y z =
     ((x = 225 \<and> y = 154 \<and> z = 128)
      \<or> (x = 226 \<and> y = 128 \<and> ((128 \<le> z \<and> z \<le> 138) \<or> z = 168 \<or> z = 169 \<or> z = 175))
      \<or> (x = 226 \<and> y = 129 \<and> z = 159)
      \<or> (x = 227 \<and> y = 128 \<and> z = 128)
      \<or> (x = 239 \<and> y = 187 \<and> z = 191))"

definition space_width :: "string \<Rightarrow> nat" where
  "space_width s =
     (case map of_char s of
        [] \<Rightarrow> 0
      | x # ys \<Rightarrow>
          if x \<in> {9, 10, 11, 12, 13, 32} then 1
          else (case ys of
                  [] \<Rightarrow> 0
                | y # zs \<Rightarrow>
                    if x = 194 \<and> y = 160 then 2
                    else (case zs of
                            [] \<Rightarrow> 0
                          | z # _ \<Rightarrow> if wide_space x y z then 3 else 0)))"

fun skip_space :: "string \<Rightarrow> string" where
  "skip_space [] = []"
| "skip_space (c # cs) =
     (if space_width (c # cs) = 0 then c # cs
      else skip_space (drop (space_width (c # cs) - 1) cs))"

fun trim_end :: "string \<Rightarrow> string" where
  "trim_end [] = []"
| "trim_end (c # cs) = (if skip_space (c # cs) = [] then [] else c # trim_end cs)"

definition trim :: "string \<Rightarrow> string" where
  "trim s = trim_end (skip_space s)"

text \<open>The digits of a literal, and their value in base 10 and in base 16, 8 or 2.\<close>

definition isDigit :: "char \<Rightarrow> bool" where
  "isDigit c = (let n = (of_char c :: nat) in 48 \<le> n \<and> n \<le> 57)"

definition digits_value :: "string \<Rightarrow> nat" where
  "digits_value ds = foldl (\<lambda>acc c. 10 * acc + (of_char c - 48)) 0 ds"

definition radix_digit :: "char \<Rightarrow> nat option" where
  "radix_digit c =
     (let n = (of_char c :: nat) in
      if 48 \<le> n \<and> n \<le> 57 then Some (n - 48)
      else if 97 \<le> n \<and> n \<le> 102 then Some (n - 87)
      else if 65 \<le> n \<and> n \<le> 70 then Some (n - 55)
      else None)"

definition isRadixDigit :: "nat \<Rightarrow> char \<Rightarrow> bool" where
  "isRadixDigit base c = (case radix_digit c of None \<Rightarrow> False | Some v \<Rightarrow> v < base)"

definition radix_value :: "nat \<Rightarrow> string \<Rightarrow> nat" where
  "radix_value base ds =
     foldl (\<lambda>acc c. base * acc + (case radix_digit c of None \<Rightarrow> 0 | Some v \<Rightarrow> v)) 0 ds"

definition exact_integer :: "int \<Rightarrow> jsnumber" where
  "exact_integer v = (if \<bar>v\<bar> \<le> 2 ^ 53 then Num v else Uncomputed)"

text \<open>
  The numeric literals \<^verbatim>\<open>Number\<close> reads (a piece holds no dot): \<^verbatim>\<open>0x\<close>, \<^verbatim>\<open>0o\<close> or \<^verbatim>\<open>0b\<close>
  and digits of that base, unsigned; or, after an optional sign, \<^verbatim>\<open>Infinity\<close> or decimal
  digits with an optional exponent (\<^verbatim>\<open>e\<close> or \<^verbatim>\<open>E\<close>, an optional sign, decimal digits).
  Everything else is \<^verbatim>\<open>NaN\<close>.
\<close>

definition radix_literal :: "string \<Rightarrow> jsnumber option" where
  "radix_literal t =
     (case t of
        z # x # ds \<Rightarrow>
          if z = CHR ''0'' \<and> ds \<noteq> [] then
            (if x \<in> {CHR ''x'', CHR ''X''} \<and> list_all (isRadixDigit 16) ds
               then Some (exact_integer (int (radix_value 16 ds)))
             else if x \<in> {CHR ''o'', CHR ''O''} \<and> list_all (isRadixDigit 8) ds
               then Some (exact_integer (int (radix_value 8 ds)))
             else if x \<in> {CHR ''b'', CHR ''B''} \<and> list_all (isRadixDigit 2) ds
               then Some (exact_integer (int (radix_value 2 ds)))
             else None)
          else None
      | _ \<Rightarrow> None)"

definition exponent_part :: "string \<Rightarrow> string \<Rightarrow> jsnumber" where
  "exponent_part m x =
     (let negative = (take 1 x = ''-'');
          ds = (if take 1 x = ''-'' \<or> take 1 x = ''+'' then drop 1 x else x)
      in if ds = [] \<or> \<not> list_all isDigit ds then NaN
         else if negative then
           (if 10 ^ digits_value ds dvd digits_value m
              then exact_integer (int (digits_value m div 10 ^ digits_value ds))
            else Uncomputed)
         else exact_integer (int (digits_value m * 10 ^ digits_value ds)))"

definition unsigned_literal :: "string \<Rightarrow> jsnumber" where
  "unsigned_literal u =
     (if u = ''Infinity'' then Uncomputed
      else (let m = takeWhile isDigit u; rest = dropWhile isDigit u in
            if m = [] then NaN
            else (case rest of
                    [] \<Rightarrow> exact_integer (int (digits_value m))
                  | e # x \<Rightarrow> if e \<in> {CHR ''e'', CHR ''E''} then exponent_part m x else NaN)))"

definition negate :: "jsnumber \<Rightarrow> jsnumber" where
  "negate x = (case x of Num v \<Rightarrow> Num (- v) | NaN \<Rightarrow> NaN | Uncomputed \<Rightarrow> Uncomputed)"

text \<open>\<^verbatim>\<open>Number(piece)\<close>: the empty or blank piece is 0.\<close>

definition Number_js :: "string \<Rightarrow> jsnumber" where
  "Number_js piece =
     (let t = trim piece in
      if t = [] then Num 0
      else (case radix_literal t of
              Some v \<Rightarrow> v
            | None \<Rightarrow>
                if take 1 t = ''-'' then negate (unsigned_literal (drop 1 t))
                else if take 1 t = ''+'' then unsigned_literal (drop 1 t)
                else unsigned_literal t))"

text \<open>
  \<^verbatim>\<open>parts[i] || 0\<close>: a piece that is missing counts 0; so does one that is \<^verbatim>\<open>NaN\<close> or 0.
\<close>

definition part_or_0 :: "jsnumber list \<Rightarrow> nat \<Rightarrow> jsnumber" where
  "part_or_0 parts i =
     (if i < length parts then (case parts ! i of NaN \<Rightarrow> Num 0 | x \<Rightarrow> x) else Num 0)"

text \<open>
  \<^verbatim>\<open>versionToBuildNumber\<close>. \<^verbatim>\<open>parts[0]\<close> always exists, and has no \<^verbatim>\<open>|| 0\<close>: a first
  piece that is \<^verbatim>\<open>NaN\<close> makes the result \<^verbatim>\<open>NaN\<close>. The products and sums of integers are
  exact in double precision as long as each stays within \<open>2 ^ 53\<close>.
\<close>

definition versionToBuildNumber :: "string \<Rightarrow> jsnumber" where
  "versionToBuildNumber version =
     (let parts = map Number_js (split_dot version) in
      case parts ! 0 of
        NaN \<Rightarrow> NaN
      | Uncomputed \<Rightarrow> Uncomputed
      | Num major \<Rightarrow>
          (case (part_or_0 parts 1, part_or_0 parts 2) of
             (Num minor, Num patch) \<Rightarrow>
               if \<bar>major * 10000\<bar> \<le> 2 ^ 53 \<and> \<bar>minor * 100\<bar> \<le> 2 ^ 53
                  \<and> \<bar>major * 10000 + minor * 100\<bar> \<le> 2 ^ 53
                  \<and> \<bar>major * 10000 + minor * 100 + patch\<bar> \<le> 2 ^ 53
               then Num (major * 10000 + minor * 100 + patch)
               else Uncomputed
           | _ \<Rightarrow> Uncomputed))"

text \<open>
  \<^verbatim>\<open>Number(bigint)\<close>, as in \<^verbatim>\<open>Number(latestUpdate.fileSize)\<close>: the double nearest to the
  integer, ties to the even significand. It is the integer itself up to \<open>2 ^ 53\<close>; above,
  the integer is cut to its leading 53 bits and rounded. (A \<^verbatim>\<open>BigInt\<close> column holds 64
  bits, far from the largest double.)
\<close>

fun bitlen :: "nat \<Rightarrow> nat" where
  "bitlen n = (if n = 0 then 0 else Suc (bitlen (n div 2)))"

declare bitlen.simps [simp del]

definition round_to_double :: "nat \<Rightarrow> nat" where
  "round_to_double a =
     (if a \<le> 2 ^ 53 then a
      else (let e = bitlen a - 53; q = a div 2 ^ e; r = a mod 2 ^ e; h = 2 ^ (e - 1)
            in (if h < r \<or> (r = h \<and> odd q) then q + 1 else q) * 2 ^ e))"

definition Number_of_BigInt :: "int \<Rightarrow> int" where
  "Number_of_BigInt x =
     (if x < 0 then - int (round_to_double (nat (- x))) else int (round_to_double (nat x)))"

section \<open>\<^verbatim>\<open>UpdateService\<close>\<close>

record CreateUpdateDto =
  cu_version :: string
  cu_buildNumber :: int
  cu_releaseType :: releaseType
  cu_filename :: string
  cu_fileSize :: int
  cu_checksum :: string
  cu_releaseNotes :: string
  cu_forceUpdate :: bool

record CheckUpdateDto =
  ck_version :: string
  ck_platform :: string
  ck_userId :: string
  ck_appVersion :: "string option"

record LatestVersion =
  lv_version :: string
  lv_buildNumber :: int
  lv_releaseType :: releaseType
  lv_downloadUrl :: string
  lv_fileSize :: int
  lv_checksum :: string
  lv_releaseNotes :: string
  lv_forceUpdate :: bool

record UpdateResponse =
  ur_updateAvailable :: bool
  ur_latestVersion :: "LatestVersion option"
  ur_message :: "string option"

subsection \<open>\<^verbatim>\<open>createUpdate\<close>\<close>

text \<open>
  Modelled from the spec: the column default of \<^verbatim>\<open>prisma/schema.prisma\<close> (not among the
  sources) for the download counter, which \<^verbatim>\<open>createUpdate\<close> does not set; the spec has a
  release persisted "with a zero download counter".
\<close>

definition createUpdate :: "db \<Rightarrow> CreateUpdateDto \<Rightarrow> (app_error + Update) \<times> db" where
  "createUpdate s data =
     (case find (\<lambda>u. upd_version u = cu_version data) (updates s) of
        Some existing \<Rightarrow>
          (Inl (BadRequestError (''Update version '' @ cu_version data @ '' already exists'')), s)
      | None \<Rightarrow>
          (let update = \<lparr>upd_id = nextId s, upd_version = cu_version data,
                          upd_buildNumber = cu_buildNumber data,
                          upd_releaseType = cu_releaseType data,
                          upd_filename = cu_filename data, upd_fileSize = cu_fileSize data,
                          upd_checksum = cu_checksum data,
                          upd_releaseNotes = cu_releaseNotes data,
                          upd_forceUpdate = cu_forceUpdate data, upd_isActive = True,
                          upd_downloadCount = 0\<rparr>
           in (Inr update, s\<lparr>updates := updates s @ [update], nextId := Suc (nextId s)\<rparr>)))"

subsection \<open>\<^verbatim>\<open>checkForUpdate\<close>\<close>

text \<open>
  \<^verbatim>\<open>prisma.update.findFirst({ where: { isActive: true, buildNumber: { gt } },
  orderBy: { buildNumber: 'desc' } })\<close>: the rows that pass the filter, ordered by build
  number descending, and the first of them. Among rows of equal build number the order
  is the store's; the model keeps storage order (the sort is stable).
\<close>

definition update_candidates :: "db \<Rightarrow> int \<Rightarrow> Update list" where
  "update_candidates s currentBuildNumber =
     filter (\<lambda>u. upd_isActive u \<and> upd_buildNumber u > currentBuildNumber) (updates s)"

definition update_findFirst_latest :: "db \<Rightarrow> int \<Rightarrow> Update option" where
  "update_findFirst_latest s currentBuildNumber =
     (case sort_key (\<lambda>u. - upd_buildNumber u) (update_candidates s currentBuildNumber) of
        [] \<Rightarrow> None
      | u # _ \<Rightarrow> Some u)"

text \<open>\<^verbatim>\<open>recordUpdateHistory\<close>: one new row of \<^verbatim>\<open>updateHistory\<close>.\<close>

definition recordUpdateHistory :: "UpdateHistory \<Rightarrow> date \<Rightarrow> db \<Rightarrow> db" where
  "recordUpdateHistory h now s =
     s\<lparr>updateHistories := updateHistories s @ [h\<lparr>uh_id := nextId s, uh_createdAt := now\<rparr>],
       nextId := Suc (nextId s)\<rparr>"

text \<open>
  \<^verbatim>\<open>checkForUpdate\<close> from the build number of the client on: the query, the history row,
  the response.
\<close>

definition checkForUpdate_from :: "db \<Rightarrow> date \<Rightarrow> int \<Rightarrow> CheckUpdateDto \<Rightarrow> UpdateResponse \<times> db" where
  "checkForUpdate_from s now currentBuildNumber d =
     (case update_findFirst_latest s currentBuildNumber of
        None \<Rightarrow>
          (\<lparr>ur_updateAvailable = False, ur_latestVersion = None,
            ur_message = Some ''You are running the latest version''\<rparr>, s)
      | Some latestUpdate \<Rightarrow>
          (\<lparr>ur_updateAvailable = True,
            ur_latestVersion = Some
              \<lparr>lv_version = upd_version latestUpdate,
               lv_buildNumber = upd_buildNumber latestUpdate,
               lv_releaseType = upd_releaseType latestUpdate,
               lv_downloadUrl = ''/api/v2/updates/download/'' @ upd_version latestUpdate,
               lv_fileSize = Number_of_BigInt (upd_fileSize latestUpdate),
               lv_checksum = upd_checksum latestUpdate,
               lv_releaseNotes = upd_releaseNotes latestUpdate,
               lv_forceUpdate = upd_forceUpdate latestUpdate\<rparr>,
            ur_message = None\<rparr>,
           recordUpdateHistory
             \<lparr>uh_id = 0, uh_updateId = upd_id latestUpdate, uh_userId = ck_userId d,
              uh_fromVersion = ck_version d, uh_toVersion = upd_version latestUpdate,
              uh_updateType = ''manual'', uh_status = ''started'',
              uh_platform = Some (ck_platform d), uh_appVersion = ck_appVersion d,
              uh_errorMessage = None, uh_createdAt = 0\<rparr> now s))"

text \<open>
  \<^verbatim>\<open>checkForUpdate\<close>. Where \<^verbatim>\<open>versionToBuildNumber\<close> gives an integer, the query is the
  one above. Where it gives \<^verbatim>\<open>NaN\<close> or a number left uncomputed, the filter handed to
  \<^verbatim>\<open>findFirst\<close> is not an integer, and what the Prisma client answers then is not in the
  sources: \<open>None\<close>.
\<close>

definition checkForUpdate :: "db \<Rightarrow> date \<Rightarrow> CheckUpdateDto \<Rightarrow> (UpdateResponse \<times> db) option" where
  "checkForUpdate s now d =
     (case versionToBuildNumber (ck_version d) of
        Num currentBuildNumber \<Rightarrow> Some (checkForUpdate_from s now currentBuildNumber d)
      | NaN \<Rightarrow> None
      | Uncomputed \<Rightarrow> None)"

text \<open>
  The route \<^verbatim>\<open>GET /check\<close>: \<^verbatim>\<open>validateQuery(checkUpdateSchema)\<close> wants a non-empty
  \<^verbatim>\<open>version\<close> and \<^verbatim>\<open>userId\<close> and fills in \<^verbatim>\<open>platform\<close> with \<^verbatim>\<open>'darwin'\<close>; the
  controller has the same default and answers 400 itself when \<^verbatim>\<open>version\<close> or \<^verbatim>\<open>userId\<close>
  is missing or empty (that answer is given here as a \<open>BadRequestError\<close> too), then
  calls the service.
\<close>

record CheckUpdateQuery =
  q_version :: "string option"
  q_platform :: "string option"
  q_userId :: "string option"
  q_appVersion :: "string option"

definition checkUpdate_issues :: "CheckUpdateQuery \<Rightarrow> string list" where
  "checkUpdate_issues q =
     (case q_version q of None \<Rightarrow> [''version''] | Some v \<Rightarrow> if v = [] then [''version''] else [])
     @ (case q_userId q of None \<Rightarrow> [''userId''] | Some u \<Rightarrow> if u = [] then [''userId''] else [])"

definition checkUpdateSchema :: "CheckUpdateQuery \<Rightarrow> string list + CheckUpdateQuery" where
  "checkUpdateSchema q =
     (case checkUpdate_issues q of
        [] \<Rightarrow> Inr (q\<lparr>q_platform :=
                       Some (case q_platform q of None \<Rightarrow> ''darwin'' | Some p \<Rightarrow> p)\<rparr>)
      | issues \<Rightarrow> Inl issues)"

definition validateQuery :: "('b \<Rightarrow> string list + 'c) \<Rightarrow> 'b \<Rightarrow> app_error + 'c" where
  "validateQuery schema query =
     (case schema query of
        Inr validated \<Rightarrow> Inr validated
      | Inl issues \<Rightarrow> Inl (BadRequestError (''Validation failed: '' @ join_comma issues)))"

definition checkForUpdate_controller ::
  "db \<Rightarrow> date \<Rightarrow> CheckUpdateQuery \<Rightarrow> (app_error + UpdateResponse \<times> db) option" where
  "checkForUpdate_controller s now q =
     (let platform = (case q_platform q of None \<Rightarrow> ''darwin'' | Some p \<Rightarrow> p) in
      case (q_version q, q_userId q) of
        (Some version, Some userId) \<Rightarrow>
          if version = [] \<or> userId = [] then
            Some (Inl (BadRequestError ''version and userId are required''))
          else
            map_option Inr
              (checkForUpdate s now
                 \<lparr>ck_version = version, ck_platform = platform, ck_userId = userId,
                  ck_appVersion = q_appVersion q\<rparr>)
      | _ \<Rightarrow> Some (Inl (BadRequestError ''version and userId are required'')))"

definition checkForUpdate_route ::
  "db \<Rightarrow> date \<Rightarrow> CheckUpdateQuery \<Rightarrow> (app_error + UpdateResponse \<times> db) option" where
  "checkForUpdate_route s now q =
     (case validateQuery checkUpdateSchema q of
        Inl e \<Rightarrow> Some (Inl e)
      | Inr q' \<Rightarrow> checkForUpdate_controller s now q')"

section \<open>Notions the properties are stated with\<close>

text \<open>
  A machine is bound to a license when the store holds an active activation of that
  license for it; the active-device count of a license is the number of its active
  activations.
\<close>

definition bound_machine :: "db \<Rightarrow> License \<Rightarrow> string \<Rightarrow> bool" where
  "bound_machine s l m =
     (\<exists>a \<in> set (licenseActivations s).
        act_licenseId a = lic_id l \<and> act_machineId a = m \<and> act_isActive a)"

definition active_device_count :: "db \<Rightarrow> License \<Rightarrow> int" where
  "active_device_count s l = int (length (active_activations_of s l))"


text \<open>
  Two activation rows that agree on every column but \<open>lastSeenAt\<close>, \<open>osVersion\<close> and
  \<open>appVersion\<close>; and, for a row id \<open>i\<close>, a row that stays as it is unless its id is
  \<open>i\<close>, in which case it may change in those three columns only.
\<close>

definition touched_only :: "LicenseActivation \<Rightarrow> LicenseActivation \<Rightarrow> bool" where
  "touched_only a a' =
     (a' = a\<lparr>act_lastSeenAt := act_lastSeenAt a', act_osVersion := act_osVersion a',
            act_appVersion := act_appVersion a'\<rparr>)"

definition revalidated_only :: "nat \<Rightarrow> LicenseActivation \<Rightarrow> LicenseActivation \<Rightarrow> bool" where
  "revalidated_only i a a' = (if act_id a = i then touched_only a a' else a' = a)"

section \<open>Example data\<close>

definition ex_key :: string where "ex_key = ''MACMAN-ABCDE-12345-XY9Z0''"

definition ex_license :: "int \<Rightarrow> bool \<Rightarrow> date option \<Rightarrow> License" where
  "ex_license n active expires =
     \<lparr>lic_id = 1, lic_licenseKey = ex_key, lic_email = None, lic_plan = ''Individual'',
      lic_maxDevices = n, lic_isActive = active, lic_expiresAt = expires,
      lic_activatedAt = None, lic_deviceCount = 0, lic_createdAt = 0\<rparr>"

definition ex_activation :: "nat \<Rightarrow> string \<Rightarrow> bool \<Rightarrow> LicenseActivation" where
  "ex_activation i m active =
     \<lparr>act_id = i, act_licenseId = 1, act_machineId = m, act_deviceName = None,
      act_osVersion = None, act_appVersion = None, act_isActive = active,
      act_activatedAt = 0, act_lastSeenAt = 0, act_deactivatedAt = None\<rparr>"

definition ex_db :: "License \<Rightarrow> LicenseActivation list \<Rightarrow> db" where
  "ex_db l acts = \<lparr>licenses = [l], licenseActivations = acts, updates = [],
     updateHistories = [], nextId = 10\<rparr>"

definition ex_dto :: "string \<Rightarrow> ValidateLicenseDto" where
  "ex_dto m = \<lparr>vl_licenseKey = ex_key, vl_machineId = m, vl_deviceName = None,
     vl_osVersion = None, vl_appVersion = None\<rparr>"


text \<open>
  A license of two devices with one active activation (and a cached count of 1) and one
  activation that was deactivated before.
\<close>

definition ex_db_devices :: db where
  "ex_db_devices =
     ex_db ((ex_license 2 True None)\<lparr>lic_deviceCount := 1\<rparr>)
       [ex_activation 2 ''mac-A'' True, ex_activation 3 ''mac-B'' False]"

text \<open>
  Releases 1.0.9, 1.0.10 and 1.0.0 active, 1.0.11 deactivated; and an update check of
  user \<^verbatim>\<open>user-1\<close>.
\<close>

definition ex_update :: "nat \<Rightarrow> string \<Rightarrow> int \<Rightarrow> bool \<Rightarrow> Update" where
  "ex_update i v b active =
     \<lparr>upd_id = i, upd_version = v, upd_buildNumber = b, upd_releaseType = normal,
      upd_filename = ''MacMan-'' @ v @ ''.dmg'', upd_fileSize = 50000000,
      upd_checksum = ''sha256-'' @ v, upd_releaseNotes = ''Bug fixes and improvements'',
      upd_forceUpdate = False, upd_isActive = active, upd_downloadCount = 0\<rparr>"

definition ex_releases :: db where
  "ex_releases =
     \<lparr>licenses = [], licenseActivations = [],
      updates = [ex_update 1 ''1.0.9'' 10009 True, ex_update 2 ''1.0.10'' 10010 True,
                 ex_update 3 ''1.0.11'' 10011 False, ex_update 4 ''1.0.0'' 10000 True],
      updateHistories = [], nextId = 5\<rparr>"

definition ex_check :: "string \<Rightarrow> string \<Rightarrow> CheckUpdateDto" where
  "ex_check v p = \<lparr>ck_version = v, ck_platform = p, ck_userId = ''user-1'', ck_appVersion = None\<rparr>"

text \<open>A release to create, a body for \<^verbatim>\<open>POST /admin/licenses\<close>, and the empty store.\<close>

definition ex_release_dto :: "string \<Rightarrow> int \<Rightarrow> CreateUpdateDto" where
  "ex_release_dto v b =
     \<lparr>cu_version = v, cu_buildNumber = b, cu_releaseType = normal,
      cu_filename = ''MacMan-'' @ v @ ''.dmg'', cu_fileSize = 50000000,
      cu_checksum = ''sha256-'' @ v, cu_releaseNotes = ''Bug fixes and improvements'',
      cu_forceUpdate = False\<rparr>"

definition ex_body :: "string \<Rightarrow> int option \<Rightarrow> CreateLicenseBody" where
  "ex_body plan override = \<lparr>cb_email = None, cb_plan = plan, cb_max_devices = override\<rparr>"

definition ex_empty :: db where
  "ex_empty = \<lparr>licenses = [], licenseActivations = [], updates = [], updateHistories = [],
     nextId = 1\<rparr>"

section \<open>Properties of \<^verbatim>\<open>validateLicense\<close>\<close>

subsection \<open>The store after a write\<close>

lemma find_bound_iff:
  "(find (\<lambda>a. act_machineId a = m \<and> act_isActive a) (active_activations_of s l) = None)
     = (\<not> bound_machine s l m)"
  by (auto simp: find_None_iff bound_machine_def active_activations_of_def activations_of_def)

lemma filter_active_active [simp]:
  "filter act_isActive (active_activations_of s l) = active_activations_of s l"
  by (simp add: active_activations_of_def)

lemma active_of_touch:
  assumes "\<And>a. act_licenseId (f a) = act_licenseId a" "\<And>a. act_isActive (f a) = act_isActive a"
  shows "active_activations_of (licenseActivation_update i f s) l
         = map (\<lambda>a. if act_id a = i then f a else a) (active_activations_of s l)"
  using assms
  by (simp add: active_activations_of_def activations_of_def licenseActivation_update_def
      filter_map o_def if_distrib[of act_licenseId] if_distrib[of act_isActive] cong: if_cong)

lemma active_of_license_update [simp]:
  "active_activations_of (license_update i f s) l = active_activations_of s l"
  by (simp add: active_activations_of_def activations_of_def license_update_def)

lemma active_of_create:
  "active_activations_of (licenseActivation_create a s) l
     = active_activations_of s l @
        (if act_licenseId a = lic_id l \<and> act_isActive a then [a\<lparr>act_id := nextId s\<rparr>] else [])"
  by (simp add: active_activations_of_def activations_of_def licenseActivation_create_def)

subsection \<open>The seven ways through \<^verbatim>\<open>validateLicense\<close>\<close>

lemma step1: "\<not> isValidLicenseKeyFormat (vl_licenseKey d) \<Longrightarrow>
   validateLicense s now d = (\<lparr>lr_valid = False, lr_message = ''Invalid license key format'', lr_data = None,
          lr_errorType = Some invalid_key, lr_purchaseUrl = None\<rparr>, s)"
  by (simp add: validateLicense_def)

lemma step2: "isValidLicenseKeyFormat (vl_licenseKey d) \<Longrightarrow> license_findUnique s (vl_licenseKey d) = None \<Longrightarrow>
   validateLicense s now d = (\<lparr>lr_valid = False, lr_message = ''License key not found'', lr_data = None,
          lr_errorType = Some invalid_key, lr_purchaseUrl = None\<rparr>, s)"
  by (simp add: validateLicense_def validateLicense_lookup_def validateLicense_decide_def)

lemma step3: "isValidLicenseKeyFormat (vl_licenseKey d) \<Longrightarrow> license_findUnique s (vl_licenseKey d) = Some l \<Longrightarrow>
   \<not> lic_isActive l \<Longrightarrow>
   validateLicense s now d = (\<lparr>lr_valid = False, lr_message = ''This license has been deactivated'', lr_data = None,
          lr_errorType = Some inactive, lr_purchaseUrl = None\<rparr>, s)"
  by (simp add: validateLicense_def validateLicense_lookup_def validateLicense_decide_def)

lemma step4: "isValidLicenseKeyFormat (vl_licenseKey d) \<Longrightarrow> license_findUnique s (vl_licenseKey d) = Some l \<Longrightarrow>
   lic_isActive l \<Longrightarrow> isExpired l now \<Longrightarrow>
   validateLicense s now d = (\<lparr>lr_valid = False, lr_message = ''This license has expired'', lr_data = None,
          lr_errorType = Some expired, lr_purchaseUrl = None\<rparr>, s)"
  by (simp add: validateLicense_def validateLicense_lookup_def validateLicense_decide_def)

lemma step5: 
  assumes "isValidLicenseKeyFormat (vl_licenseKey d)" "license_findUnique s (vl_licenseKey d) = Some l"
   "lic_isActive l" "\<not> isExpired l now" "bound_machine s l (vl_machineId d)"
  shows "\<exists>ex \<in> set (active_activations_of s l). act_machineId ex = vl_machineId d \<and>
   validateLicense s now d = (\<lparr>lr_valid = True, lr_message = ''License validated successfully'',
                   lr_data = Some \<lparr>ld_licenseKey = lic_licenseKey l,
                     ld_plan = lic_plan l, ld_maxDevices = lic_maxDevices l,
                     ld_deviceCount = active_device_count s l,
                     ld_isActive = True\<rparr>,
                   lr_errorType = None, lr_purchaseUrl = None\<rparr>,
                  licenseActivation_update (act_id ex)
                    (\<lambda>a. a\<lparr>act_lastSeenAt := now,
                       act_osVersion := set_column (vl_osVersion d) (act_osVersion a),
                       act_appVersion := set_column (vl_appVersion d) (act_appVersion a)\<rparr>) s)"
proof -
  from assms(5) obtain ex where ex: "find (\<lambda>a. act_machineId a = vl_machineId d \<and> act_isActive a) (active_activations_of s l) = Some ex"
    using find_bound_iff[of "vl_machineId d" s l] by auto
  then have "ex \<in> set (active_activations_of s l)" "act_machineId ex = vl_machineId d"
    by (auto simp: find_Some_iff)
  with ex assms(1-4) show ?thesis
    by (auto simp: validateLicense_def validateLicense_lookup_def validateLicense_decide_def active_device_count_def intro!: bexI[of _ ex])
qed

lemma step6:
  assumes "isValidLicenseKeyFormat (vl_licenseKey d)" "license_findUnique s (vl_licenseKey d) = Some l"
   "lic_isActive l" "\<not> isExpired l now" "\<not> bound_machine s l (vl_machineId d)"
   "active_device_count s l \<ge> lic_maxDevices l"
  shows "validateLicense s now d = (\<lparr>lr_valid = False,
                      lr_message = ''Maximum number of devices ('' @
                        number_toString (lic_maxDevices l) @ '') reached for this license'',
                      lr_data = None, lr_errorType = Some max_devices_reached,
                      lr_purchaseUrl = Some ''https://macman.dev/#pricing''\<rparr>, s)"
  using assms find_bound_iff[of "vl_machineId d" s l]
  by (simp add: validateLicense_def validateLicense_lookup_def validateLicense_decide_def active_device_count_def)

lemma step7:
  assumes "isValidLicenseKeyFormat (vl_licenseKey d)" "license_findUnique s (vl_licenseKey d) = Some l"
   "lic_isActive l" "\<not> isExpired l now" "\<not> bound_machine s l (vl_machineId d)"
   "active_device_count s l < lic_maxDevices l"
  shows "validateLicense s now d = (\<lparr>lr_valid = True, lr_message = ''License activated successfully'',
                      lr_data = Some \<lparr>ld_licenseKey = lic_licenseKey l,
                        ld_plan = lic_plan l, ld_maxDevices = lic_maxDevices l,
                        ld_deviceCount = active_device_count s l + 1,
                        ld_isActive = True\<rparr>,
                      lr_errorType = None, lr_purchaseUrl = None\<rparr>,
                     license_update (lic_id l)
                       (\<lambda>x. x\<lparr>lic_activatedAt := Some now,
                          lic_deviceCount := active_device_count s l + 1\<rparr>)
                       (licenseActivation_create
                          \<lparr>act_id = 0, act_licenseId = lic_id l,
                            act_machineId = vl_machineId d, act_deviceName = vl_deviceName d,
                            act_osVersion = vl_osVersion d, act_appVersion = vl_appVersion d,
                            act_isActive = True, act_activatedAt = now, act_lastSeenAt = now,
                            act_deactivatedAt = None\<rparr> s))"
  using assms find_bound_iff[of "vl_machineId d" s l]
  by (simp add: validateLicense_def validateLicense_lookup_def validateLicense_decide_def active_device_count_def Let_def)


subsection \<open>The example data\<close>

text \<open>The key format on a well-formed key and on four that are not.\<close>

lemma isValidLicenseKeyFormat_examples:
  "isValidLicenseKeyFormat ''MACMAN-ABCDE-12345-XY9Z0''"
  "\<not> isValidLicenseKeyFormat ''macman-ABCDE-12345-XY9Z0''"
  "\<not> isValidLicenseKeyFormat ''MACMAN-ABCD-12345-XY9Z0''"
  "\<not> isValidLicenseKeyFormat ''MACMAN-ABCDE-12345''"
  "\<not> isValidLicenseKeyFormat ''MACMAN-ABCDE-12345-XY9Z0 ''"
  by (simp_all add: isValidLicenseKeyFormat_def isKeySegment_def isKeyChar_def)

lemma ex_key_valid: "isValidLicenseKeyFormat ex_key"
  by (simp add: ex_key_def isValidLicenseKeyFormat_def isKeySegment_def isKeyChar_def)

lemma ex_find: "license_findUnique (ex_db l acts) (lic_licenseKey l) = Some l"
  by (simp add: license_findUnique_def ex_db_def)


subsection \<open>The order of the decision steps\<close>

text \<open>
  Claim C1. \<^verbatim>\<open>validateLicense\<close> decides in this order, each step ending the call:
  (1) a key of the wrong format is \<open>invalid_key\<close>, whatever the store holds (the
  response is the same for every store, and the store is left as it is);
  (2) a key the store does not have is \<open>invalid_key\<close>;
  (3) a license that is not active is \<open>inactive\<close>;
  (4) a license whose expiration lies before \<open>now\<close> is \<open>expired\<close>, also when the
  machine is already bound to it;
  (5) a machine already bound to the license is validated: success, reporting the
  active-device count, which stays what it was, with no row added;
  (6) with the active-device count at or above \<open>maxDevices\<close> the outcome is
  \<open>max_devices_reached\<close>;
  (7) otherwise one active activation of the license for the machine is added, and the
  call succeeds.
  The failing steps leave the store unchanged.
\<close>

theorem validateLicense_decision_order:
  "(\<not> isValidLicenseKeyFormat (vl_licenseKey d) \<longrightarrow>
       lr_valid (fst (validateLicense s now d)) = False
     \<and> lr_errorType (fst (validateLicense s now d)) = Some invalid_key
     \<and> snd (validateLicense s now d) = s
     \<and> (\<forall>s'. fst (validateLicense s' now d) = fst (validateLicense s now d)))
   \<and> (isValidLicenseKeyFormat (vl_licenseKey d) \<longrightarrow>
       (case license_findUnique s (vl_licenseKey d) of
          None \<Rightarrow>
              lr_valid (fst (validateLicense s now d)) = False
            \<and> lr_errorType (fst (validateLicense s now d)) = Some invalid_key
            \<and> snd (validateLicense s now d) = s
        | Some l \<Rightarrow>
            if \<not> lic_isActive l then
                lr_valid (fst (validateLicense s now d)) = False
              \<and> lr_errorType (fst (validateLicense s now d)) = Some inactive
              \<and> snd (validateLicense s now d) = s
            else if isExpired l now then
                lr_valid (fst (validateLicense s now d)) = False
              \<and> lr_errorType (fst (validateLicense s now d)) = Some expired
              \<and> snd (validateLicense s now d) = s
            else if bound_machine s l (vl_machineId d) then
                lr_valid (fst (validateLicense s now d)) = True
              \<and> lr_errorType (fst (validateLicense s now d)) = None
              \<and> map_option ld_deviceCount (lr_data (fst (validateLicense s now d)))
                  = Some (active_device_count s l)
              \<and> active_device_count (snd (validateLicense s now d)) l = active_device_count s l
              \<and> length (licenseActivations (snd (validateLicense s now d)))
                  = length (licenseActivations s)
              \<and> licenses (snd (validateLicense s now d)) = licenses s
            else if active_device_count s l \<ge> lic_maxDevices l then
                lr_valid (fst (validateLicense s now d)) = False
              \<and> lr_errorType (fst (validateLicense s now d)) = Some max_devices_reached
              \<and> snd (validateLicense s now d) = s
            else
                lr_valid (fst (validateLicense s now d)) = True
              \<and> lr_errorType (fst (validateLicense s now d)) = None
              \<and> (\<exists>a. licenseActivations (snd (validateLicense s now d))
                        = licenseActivations s @ [a]
                    \<and> act_licenseId a = lic_id l \<and> act_machineId a = vl_machineId d
                    \<and> act_isActive a)
              \<and> active_device_count (snd (validateLicense s now d)) l
                  = active_device_count s l + 1))"
proof (intro conjI impI)
  assume bad: "\<not> isValidLicenseKeyFormat (vl_licenseKey d)"
  show "lr_valid (fst (validateLicense s now d)) = False"
    "lr_errorType (fst (validateLicense s now d)) = Some invalid_key"
    "snd (validateLicense s now d) = s"
    "\<forall>s'. fst (validateLicense s' now d) = fst (validateLicense s now d)"
    using bad by (simp_all add: step1)
next
  assume ok: "isValidLicenseKeyFormat (vl_licenseKey d)"
  show "case license_findUnique s (vl_licenseKey d) of
          None \<Rightarrow>
              lr_valid (fst (validateLicense s now d)) = False
            \<and> lr_errorType (fst (validateLicense s now d)) = Some invalid_key
            \<and> snd (validateLicense s now d) = s
        | Some l \<Rightarrow>
            if \<not> lic_isActive l then
                lr_valid (fst (validateLicense s now d)) = False
              \<and> lr_errorType (fst (validateLicense s now d)) = Some inactive
              \<and> snd (validateLicense s now d) = s
            else if isExpired l now then
                lr_valid (fst (validateLicense s now d)) = False
              \<and> lr_errorType (fst (validateLicense s now d)) = Some expired
              \<and> snd (validateLicense s now d) = s
            else if bound_machine s l (vl_machineId d) then
                lr_valid (fst (validateLicense s now d)) = True
              \<and> lr_errorType (fst (validateLicense s now d)) = None
              \<and> map_option ld_deviceCount (lr_data (fst (validateLicense s now d)))
                  = Some (active_device_count s l)
              \<and> active_device_count (snd (validateLicense s now d)) l = active_device_count s l
              \<and> length (licenseActivations (snd (validateLicense s now d)))
                  = length (licenseActivations s)
              \<and> licenses (snd (validateLicense s now d)) = licenses s
            else if active_device_count s l \<ge> lic_maxDevices l then
                lr_valid (fst (validateLicense s now d)) = False
              \<and> lr_errorType (fst (validateLicense s now d)) = Some max_devices_reached
              \<and> snd (validateLicense s now d) = s
            else
                lr_valid (fst (validateLicense s now d)) = True
              \<and> lr_errorType (fst (validateLicense s now d)) = None
              \<and> (\<exists>a. licenseActivations (snd (validateLicense s now d))
                        = licenseActivations s @ [a]
                    \<and> act_licenseId a = lic_id l \<and> act_machineId a = vl_machineId d
                    \<and> act_isActive a)
              \<and> active_device_count (snd (validateLicense s now d)) l
                  = active_device_count s l + 1"
  proof (cases "license_findUnique s (vl_licenseKey d)")
    case None
    then show ?thesis using ok by (simp add: step2)
  next
    case (Some l)
    show ?thesis
    proof (cases "lic_isActive l")
      case False
      then show ?thesis using ok Some by (simp add: step3)
    next
      case active: True
      show ?thesis
      proof (cases "isExpired l now")
        case True
        then show ?thesis using ok Some active by (simp add: step4)
      next
        case fresh: False
        show ?thesis
        proof (cases "bound_machine s l (vl_machineId d)")
          case True
          from step5[OF ok Some active fresh True] obtain ex :: LicenseActivation where
            r: "validateLicense s now d = (\<lparr>lr_valid = True, lr_message = ''License validated successfully'',
                   lr_data = Some \<lparr>ld_licenseKey = lic_licenseKey l,
                     ld_plan = lic_plan l, ld_maxDevices = lic_maxDevices l,
                     ld_deviceCount = active_device_count s l,
                     ld_isActive = True\<rparr>,
                   lr_errorType = None, lr_purchaseUrl = None\<rparr>,
                  licenseActivation_update (act_id ex)
                    (\<lambda>a. a\<lparr>act_lastSeenAt := now,
                       act_osVersion := set_column (vl_osVersion d) (act_osVersion a),
                       act_appVersion := set_column (vl_appVersion d) (act_appVersion a)\<rparr>) s)"
            by blast
          show ?thesis using Some active fresh True
            by (simp add: r active_device_count_def active_of_touch)
               (simp add: licenseActivation_update_def)
        next
          case unbound: False
          show ?thesis
          proof (cases "active_device_count s l \<ge> lic_maxDevices l")
            case True
            then show ?thesis using Some active fresh unbound
              by (simp add: step6[OF ok Some active fresh unbound True])
          next
            case False
            then have lt: "active_device_count s l < lic_maxDevices l" by simp
            show ?thesis using Some active fresh unbound False
              by (simp add: step7[OF ok Some active fresh unbound lt] active_device_count_def active_of_create)
                 (simp add: license_update_def licenseActivation_create_def)
          qed
        qed
      qed
    qed
  qed
qed


text \<open>
  The theorem at five requests: a key in lower case; an expired license whose machine
  is already bound (the outcome is \<open>expired\<close>); a bound machine; a new machine on a
  full license; a new machine on a license with room.
\<close>

theorem validateLicense_decision_order_witness:
  "lr_errorType (fst (validateLicense (ex_db (ex_license 1 True None) []) 100
       ((ex_dto ''mac-A'')\<lparr>vl_licenseKey := ''macman-ABCDE-12345-XY9Z0''\<rparr>))) = Some invalid_key
   \<and> lr_errorType (fst (validateLicense
        (ex_db (ex_license 1 True (Some 50)) [ex_activation 2 ''mac-A'' True]) 100
        (ex_dto ''mac-A''))) = Some expired
   \<and> lr_valid (fst (validateLicense
        (ex_db (ex_license 1 True None) [ex_activation 2 ''mac-A'' True]) 100 (ex_dto ''mac-A'')))
   \<and> lr_errorType (fst (validateLicense
        (ex_db (ex_license 1 True None) [ex_activation 2 ''mac-A'' True]) 100 (ex_dto ''mac-B'')))
       = Some max_devices_reached
   \<and> lr_valid (fst (validateLicense
        (ex_db (ex_license 2 True None) [ex_activation 2 ''mac-A'' True]) 100 (ex_dto ''mac-B'')))"
proof -
  have bad: "\<not> isValidLicenseKeyFormat
      (vl_licenseKey ((ex_dto ''mac-A'')\<lparr>vl_licenseKey := ''macman-ABCDE-12345-XY9Z0''\<rparr>))"
    by (simp add: isValidLicenseKeyFormat_def)
  have v: "\<And>m. isValidLicenseKeyFormat (vl_licenseKey (ex_dto m))"
    by (simp add: ex_dto_def ex_key_valid)
  have f: "\<And>n e acts m. license_findUnique (ex_db (ex_license n True e) acts) (vl_licenseKey (ex_dto m))
              = Some (ex_license n True e)"
    by (simp add: license_findUnique_def ex_db_def ex_dto_def ex_license_def)
  have a: "\<And>n e. lic_isActive (ex_license n True e)" by (simp add: ex_license_def)
  have e: "isExpired (ex_license 1 True (Some 50)) 100" "\<And>n. \<not> isExpired (ex_license n True None) 100"
    by (simp_all add: ex_license_def isExpired_def)
  have b: "\<And>n. bound_machine (ex_db (ex_license n True None) [ex_activation 2 ''mac-A'' True])
              (ex_license n True None) (vl_machineId (ex_dto ''mac-A''))"
    "\<And>n. \<not> bound_machine (ex_db (ex_license n True None) [ex_activation 2 ''mac-A'' True])
              (ex_license n True None) (vl_machineId (ex_dto ''mac-B''))"
    by (simp_all add: bound_machine_def ex_db_def ex_activation_def ex_license_def ex_dto_def)
  have c: "\<And>n. active_device_count (ex_db (ex_license n True None) [ex_activation 2 ''mac-A'' True])
             (ex_license n True None) = 1"
    by (simp add: active_device_count_def active_activations_of_def activations_of_def
        ex_db_def ex_activation_def ex_license_def)
  have m: "lic_maxDevices (ex_license 1 True None) = 1" "lic_maxDevices (ex_license 2 True None) = 2"
    by (simp_all add: ex_license_def)
  have W1: "lr_errorType (fst (validateLicense (ex_db (ex_license 1 True None) []) 100
       ((ex_dto ''mac-A'')\<lparr>vl_licenseKey := ''macman-ABCDE-12345-XY9Z0''\<rparr>))) = Some invalid_key"
    using validateLicense_decision_order[where s = "ex_db (ex_license 1 True None) []" and now = 100
        and d = "(ex_dto ''mac-A'')\<lparr>vl_licenseKey := ''macman-ABCDE-12345-XY9Z0''\<rparr>"] bad
    by blast
  have W2: "lr_errorType (fst (validateLicense
        (ex_db (ex_license 1 True (Some 50)) [ex_activation 2 ''mac-A'' True]) 100
        (ex_dto ''mac-A''))) = Some expired"
    using validateLicense_decision_order[where d = "ex_dto ''mac-A''" and now = 100
        and s = "ex_db (ex_license 1 True (Some 50)) [ex_activation 2 ''mac-A'' True]"]
    by (simp add: v f a e)
  have W3: "lr_valid (fst (validateLicense
        (ex_db (ex_license 1 True None) [ex_activation 2 ''mac-A'' True]) 100 (ex_dto ''mac-A'')))"
    using validateLicense_decision_order[where d = "ex_dto ''mac-A''" and now = 100
        and s = "ex_db (ex_license 1 True None) [ex_activation 2 ''mac-A'' True]"]
    by (simp add: v f a e b)
  have W4: "lr_errorType (fst (validateLicense
        (ex_db (ex_license 1 True None) [ex_activation 2 ''mac-A'' True]) 100 (ex_dto ''mac-B'')))
       = Some max_devices_reached"
    using validateLicense_decision_order[where d = "ex_dto ''mac-B''" and now = 100
        and s = "ex_db (ex_license 1 True None) [ex_activation 2 ''mac-A'' True]"]
    by (simp add: v f a e b c m)
  have W5: "lr_valid (fst (validateLicense
        (ex_db (ex_license 2 True None) [ex_activation 2 ''mac-A'' True]) 100 (ex_dto ''mac-B'')))"
    using validateLicense_decision_order[where d = "ex_dto ''mac-B''" and now = 100
        and s = "ex_db (ex_license 2 True None) [ex_activation 2 ''mac-A'' True]"]
    by (simp add: v f a e b c m)
  from W1 W2 W3 W4 W5 show ?thesis by blast
qed

subsection \<open>Filling the quota\<close>

lemma find_map_same:
  assumes "\<And>x. P (f x) = P x"
  shows "find P (map f xs) = map_option f (find P xs)"
  using assms by (induction xs) auto

lemma license_find_after_update:
  assumes "\<And>x. lic_licenseKey (f x) = lic_licenseKey x"
  shows "license_findUnique (license_update i f s) k
         = map_option (\<lambda>l. if lic_id l = i then f l else l) (license_findUnique s k)"
  using assms
  by (simp add: license_findUnique_def license_update_def find_map_same if_distrib[of lic_licenseKey] cong: if_cong)

lemma license_find_after_act_create [simp]:
  "license_findUnique (licenseActivation_create a s) k = license_findUnique s k"
  by (simp add: license_findUnique_def licenseActivation_create_def)

lemma license_find_after_act_update [simp]:
  "license_findUnique (licenseActivation_update i f s) k = license_findUnique s k"
  by (simp add: license_findUnique_def licenseActivation_update_def)

lemma active_activations_of_cong:
  "lic_id l' = lic_id l \<Longrightarrow> active_activations_of s l' = active_activations_of s l"
  by (simp add: active_activations_of_def activations_of_def)

lemma bound_machine_iff:
  "bound_machine s l m = (m \<in> set (map act_machineId (active_activations_of s l)))"
  by (auto simp: bound_machine_def active_activations_of_def activations_of_def)

lemma validateAll_Cons:
  "validateAll s ((now, d) # rest) =
     (fst (validateLicense s now d) # fst (validateAll (snd (validateLicense s now d)) rest),
      snd (validateAll (snd (validateLicense s now d)) rest))"
  by (simp add: case_prod_beta)

lemma validateAll_fills:
  assumes k: "isValidLicenseKeyFormat k"
  shows "license_findUnique s k = Some l \<Longrightarrow> lic_isActive l \<Longrightarrow>
     \<forall>(now, d) \<in> set reqs. vl_licenseKey d = k \<and> \<not> isExpired l now \<Longrightarrow>
     distinct (map act_machineId (active_activations_of s l) @ map (\<lambda>r. vl_machineId (snd r)) reqs) \<Longrightarrow>
     int (length (active_activations_of s l) + length reqs) \<le> lic_maxDevices l \<Longrightarrow>
     \<exists>l'. license_findUnique (snd (validateAll s reqs)) k = Some l' \<and> lic_id l' = lic_id l
        \<and> lic_maxDevices l' = lic_maxDevices l \<and> lic_isActive l'
        \<and> lic_expiresAt l' = lic_expiresAt l
        \<and> map act_machineId (active_activations_of (snd (validateAll s reqs)) l)
            = map act_machineId (active_activations_of s l) @ map (\<lambda>r. vl_machineId (snd r)) reqs
        \<and> list_all lr_valid (fst (validateAll s reqs))"
proof (induction reqs arbitrary: s l)
  case Nil
  then show ?case by simp
next
  case (Cons r reqs)
  obtain now d where r: "r = (now, d)" by (cases r)
  from Cons.prems(3) r have key: "vl_licenseKey d = k" and fresh: "\<not> isExpired l now" by auto
  have ok: "isValidLicenseKeyFormat (vl_licenseKey d)" using k key by simp
  have found: "license_findUnique s (vl_licenseKey d) = Some l" using Cons.prems(1) key by simp
  have unbound: "\<not> bound_machine s l (vl_machineId d)"
    using Cons.prems(4) r by (auto simp: bound_machine_iff)
  have room: "active_device_count s l < lic_maxDevices l"
    using Cons.prems(5) by (simp add: active_device_count_def)
  define g :: "License \<Rightarrow> License" where "g = (\<lambda>x. x\<lparr>lic_activatedAt := Some now,
                          lic_deviceCount := active_device_count s l + 1\<rparr>)"
  define a :: LicenseActivation where "a = \<lparr>act_id = 0, act_licenseId = lic_id l,
                            act_machineId = vl_machineId d, act_deviceName = vl_deviceName d,
                            act_osVersion = vl_osVersion d, act_appVersion = vl_appVersion d,
                            act_isActive = True, act_activatedAt = now, act_lastSeenAt = now,
                            act_deactivatedAt = None\<rparr>"
  define s1 where "s1 = license_update (lic_id l) g (licenseActivation_create a s)"
  have v: "snd (validateLicense s now d) = s1" "lr_valid (fst (validateLicense s now d))"
    by (simp_all add: step7[OF ok found Cons.prems(2) fresh unbound room] s1_def g_def a_def)
  have f1: "license_findUnique s1 k = Some (g l)"
    using Cons.prems(1) by (simp add: s1_def license_find_after_update g_def)
  have act1: "active_activations_of s1 l = active_activations_of s l @ [a\<lparr>act_id := nextId s\<rparr>]"
    by (simp add: s1_def active_of_create a_def)
  have gl: "lic_id (g l) = lic_id l" "lic_maxDevices (g l) = lic_maxDevices l"
    "lic_isActive (g l) = lic_isActive l" "lic_expiresAt (g l) = lic_expiresAt l"
    by (simp_all add: g_def)
  have act1': "active_activations_of s1 (g l) = active_activations_of s l @ [a\<lparr>act_id := nextId s\<rparr>]"
    using act1 active_activations_of_cong[OF gl(1)] by simp
  have p3: "\<forall>(now, d) \<in> set reqs. vl_licenseKey d = k \<and> \<not> isExpired (g l) now"
    using Cons.prems(3) by (auto simp: isExpired_def gl)
  have p4: "distinct (map act_machineId (active_activations_of s1 (g l)) @ map (\<lambda>r. vl_machineId (snd r)) reqs)"
    using Cons.prems(4) by (auto simp: act1' r a_def)
  have p5: "int (length (active_activations_of s1 (g l)) + length reqs) \<le> lic_maxDevices (g l)"
    using Cons.prems(5) by (simp add: act1' gl)
  from Cons.IH[OF f1 _ p3 p4 p5] Cons.prems(2) gl obtain l' where
    l': "license_findUnique (snd (validateAll s1 reqs)) k = Some l'" "lic_id l' = lic_id l"
        "lic_maxDevices l' = lic_maxDevices l" "lic_isActive l'" "lic_expiresAt l' = lic_expiresAt l"
        "map act_machineId (active_activations_of (snd (validateAll s1 reqs)) (g l))
            = map act_machineId (active_activations_of s1 (g l)) @ map (\<lambda>r. vl_machineId (snd r)) reqs"
        "list_all lr_valid (fst (validateAll s1 reqs))"
    by auto
  have all: "validateAll s (r # reqs) = (fst (validateLicense s now d) # fst (validateAll s1 reqs), snd (validateAll s1 reqs))"
    using v(1) by (simp only: r validateAll_Cons)
  show ?case
    unfolding all
    using l' v(2) act1' active_activations_of_cong[OF gl(1), of "snd (validateAll s1 reqs)"]
    by (simp add: r a_def)
qed

lemma length_validateAll: "length (fst (validateAll s reqs)) = length reqs"
  by (induction reqs arbitrary: s) (auto simp: case_prod_beta)


text \<open>
  Claim C2. On an active license \<open>l\<close> of a well-formed key, with no active activation
  yet and \<open>maxDevices = N\<close>, validating \<open>N\<close> distinct machine ids one after the other,
  each at an instant at which the license has not expired, succeeds every time. A
  further validation for a machine id not among them is refused with
  \<open>max_devices_reached\<close> and the purchase reference, and leaves the store, and so the
  active activations, as they were.
\<close>

theorem quota_fills_then_refuses:
  assumes key_ok: "isValidLicenseKeyFormat k"
    and found: "license_findUnique s k = Some l"
    and active: "lic_isActive l"
    and none_yet: "active_activations_of s l = []"
    and quota: "lic_maxDevices l = int (length reqs)"
    and machines: "distinct (map (\<lambda>r. vl_machineId (snd r)) reqs)"
    and reqs: "\<forall>(now, d) \<in> set reqs. vl_licenseKey d = k \<and> \<not> isExpired l now"
    and next_key: "vl_licenseKey d' = k"
    and next_time: "\<not> isExpired l now'"
    and next_machine: "vl_machineId d' \<notin> set (map (\<lambda>r. vl_machineId (snd r)) reqs)"
  shows "list_all lr_valid (fst (validateAll s reqs))
       \<and> length (fst (validateAll s reqs)) = length reqs
       \<and> active_device_count (snd (validateAll s reqs)) l = lic_maxDevices l
       \<and> lr_valid (fst (validateLicense (snd (validateAll s reqs)) now' d')) = False
       \<and> lr_errorType (fst (validateLicense (snd (validateAll s reqs)) now' d'))
           = Some max_devices_reached
       \<and> lr_purchaseUrl (fst (validateLicense (snd (validateAll s reqs)) now' d'))
           = Some ''https://macman.dev/#pricing''
       \<and> snd (validateLicense (snd (validateAll s reqs)) now' d') = snd (validateAll s reqs)"
proof -
  define s' where "s' = snd (validateAll s reqs)"
  have d: "distinct (map act_machineId (active_activations_of s l) @ map (\<lambda>r. vl_machineId (snd r)) reqs)"
    using machines none_yet by simp
  have n: "int (length (active_activations_of s l) + length reqs) \<le> lic_maxDevices l"
    using quota none_yet by simp
  from validateAll_fills[OF key_ok found active reqs d n] obtain l' where
    l': "license_findUnique s' k = Some l'" "lic_id l' = lic_id l"
        "lic_maxDevices l' = lic_maxDevices l" "lic_isActive l'"
        "lic_expiresAt l' = lic_expiresAt l"
        "map act_machineId (active_activations_of s' l)
           = map act_machineId (active_activations_of s l) @ map (\<lambda>r. vl_machineId (snd r)) reqs"
        "list_all lr_valid (fst (validateAll s reqs))"
    unfolding s'_def by blast
  have same: "active_activations_of s' l' = active_activations_of s' l"
    by (rule active_activations_of_cong[OF l'(2)])
  have ms: "map act_machineId (active_activations_of s' l) = map (\<lambda>r. vl_machineId (snd r)) reqs"
    using l'(6) none_yet by simp
  have len: "length (active_activations_of s' l) = length reqs"
    using arg_cong[OF ms, of length] by simp
  have count: "active_device_count s' l = lic_maxDevices l"
    by (simp add: active_device_count_def len quota)
  have p1: "isValidLicenseKeyFormat (vl_licenseKey d')" using key_ok next_key by simp
  have p2: "license_findUnique s' (vl_licenseKey d') = Some l'" using l'(1) next_key by simp
  have p4: "\<not> isExpired l' now'" using next_time l'(5) by (simp add: isExpired_def)
  have p5: "\<not> bound_machine s' l' (vl_machineId d')"
    using next_machine ms by (simp add: bound_machine_iff same)
  have p6: "active_device_count s' l' \<ge> lic_maxDevices l'"
    using count by (simp add: active_device_count_def same l'(3))
  note r = step6[OF p1 p2 l'(4) p4 p5 p6]
  show ?thesis
    using l'(7) count r unfolding s'_def by (simp add: length_validateAll)
qed


text \<open>The theorem at a license of two devices: two machines get in, the third does not.\<close>

theorem quota_fills_then_refuses_witness:
  "list_all lr_valid (fst (validateAll (ex_db (ex_license 2 True None) [])
       [(10, ex_dto ''mac-A''), (20, ex_dto ''mac-B'')]))
   \<and> lr_errorType (fst (validateLicense
         (snd (validateAll (ex_db (ex_license 2 True None) [])
            [(10, ex_dto ''mac-A''), (20, ex_dto ''mac-B'')])) 30 (ex_dto ''mac-C'')))
       = Some max_devices_reached
   \<and> snd (validateLicense
         (snd (validateAll (ex_db (ex_license 2 True None) [])
            [(10, ex_dto ''mac-A''), (20, ex_dto ''mac-B'')])) 30 (ex_dto ''mac-C''))
       = snd (validateAll (ex_db (ex_license 2 True None) [])
            [(10, ex_dto ''mac-A''), (20, ex_dto ''mac-B'')])"
proof -
  have h1: "isValidLicenseKeyFormat ex_key" by (rule ex_key_valid)
  have h2: "license_findUnique (ex_db (ex_license 2 True None) []) ex_key = Some (ex_license 2 True None)"
    using ex_find[of "ex_license 2 True None" "[]"] by (simp add: ex_license_def)
  have h3: "lic_isActive (ex_license 2 True None)" by (simp add: ex_license_def)
  have h4: "active_activations_of (ex_db (ex_license 2 True None) []) (ex_license 2 True None) = []"
    by (simp add: active_activations_of_def activations_of_def ex_db_def)
  have h5: "lic_maxDevices (ex_license 2 True None)
            = int (length [(10::date, ex_dto ''mac-A''), (20, ex_dto ''mac-B'')])"
    by (simp add: ex_license_def)
  have h6: "distinct (map (\<lambda>r. vl_machineId (snd r)) [(10::date, ex_dto ''mac-A''), (20, ex_dto ''mac-B'')])"
    by (simp add: ex_dto_def)
  have h7: "\<forall>(now, d) \<in> set [(10::date, ex_dto ''mac-A''), (20, ex_dto ''mac-B'')].
              vl_licenseKey d = ex_key \<and> \<not> isExpired (ex_license 2 True None) now"
    by (simp add: ex_dto_def isExpired_def ex_license_def)
  have h8: "vl_licenseKey (ex_dto ''mac-C'') = ex_key" by (simp add: ex_dto_def)
  have h9: "\<not> isExpired (ex_license 2 True None) 30" by (simp add: isExpired_def ex_license_def)
  have h10: "vl_machineId (ex_dto ''mac-C'')
             \<notin> set (map (\<lambda>r. vl_machineId (snd r)) [(10::date, ex_dto ''mac-A''), (20, ex_dto ''mac-B'')])"
    by (simp add: ex_dto_def)
  from quota_fills_then_refuses[OF h1 h2 h3 h4 h5 h6 h7 h8 h9 h10]
  show ?thesis by simp
qed

subsection \<open>Validating a bound machine again\<close>

lemma touched_only_id: "touched_only a b \<Longrightarrow> act_id b = act_id a"
  by (cases a, cases b) (simp add: touched_only_def)

lemma touched_only_trans: "touched_only a b \<Longrightarrow> touched_only b c \<Longrightarrow> touched_only a c"
  by (cases a, cases b, cases c) (simp add: touched_only_def)

lemma revalidated_only_trans:
  "revalidated_only i a b \<Longrightarrow> revalidated_only i b c \<Longrightarrow> revalidated_only i a c"
  by (auto simp: revalidated_only_def split: if_splits dest: touched_only_id touched_only_trans)

lemma revalidated_only_touch:
  "revalidated_only i a
     (if act_id a = i then a\<lparr>act_lastSeenAt := t, act_osVersion := os, act_appVersion := app\<rparr> else a)"
  by (cases a) (simp add: revalidated_only_def touched_only_def)

lemma step5_found:
  assumes "isValidLicenseKeyFormat (vl_licenseKey d)" "license_findUnique s (vl_licenseKey d) = Some l"
   "lic_isActive l" "\<not> isExpired l now"
   "find (\<lambda>a. act_machineId a = vl_machineId d \<and> act_isActive a) (active_activations_of s l) = Some ex"
  shows "validateLicense s now d = (\<lparr>lr_valid = True, lr_message = ''License validated successfully'',
                   lr_data = Some \<lparr>ld_licenseKey = lic_licenseKey l,
                     ld_plan = lic_plan l, ld_maxDevices = lic_maxDevices l,
                     ld_deviceCount = active_device_count s l,
                     ld_isActive = True\<rparr>,
                   lr_errorType = None, lr_purchaseUrl = None\<rparr>,
                  licenseActivation_update (act_id ex)
                    (\<lambda>a. a\<lparr>act_lastSeenAt := now,
                       act_osVersion := set_column (vl_osVersion d) (act_osVersion a),
                       act_appVersion := set_column (vl_appVersion d) (act_appVersion a)\<rparr>) s)"
  using assms
  by (simp add: validateLicense_def validateLicense_lookup_def validateLicense_decide_def active_device_count_def)

lemma revalidate_many:
  assumes key_ok: "isValidLicenseKeyFormat (vl_licenseKey d)" and active: "lic_isActive l"
  shows "license_findUnique s (vl_licenseKey d) = Some l \<Longrightarrow>
     find (\<lambda>a. act_machineId a = vl_machineId d \<and> act_isActive a) (active_activations_of s l) = Some ex \<Longrightarrow>
     \<forall>now \<in> set nows. \<not> isExpired l now \<Longrightarrow>
       list_all2 (revalidated_only (act_id ex)) (licenseActivations s)
          (licenseActivations (snd (validateAll s (map (\<lambda>t. (t, d)) nows))))
     \<and> licenses (snd (validateAll s (map (\<lambda>t. (t, d)) nows))) = licenses s
     \<and> active_device_count (snd (validateAll s (map (\<lambda>t. (t, d)) nows))) l = active_device_count s l
     \<and> list_all (\<lambda>r. lr_valid r \<and> map_option ld_deviceCount (lr_data r) = Some (active_device_count s l))
          (fst (validateAll s (map (\<lambda>t. (t, d)) nows)))"
proof (induction nows arbitrary: s ex)
  case Nil
  show ?case by (simp add: list_all2_refl revalidated_only_def touched_only_def)
next
  case (Cons now nows)
  define f :: "LicenseActivation \<Rightarrow> LicenseActivation" where
    "f = (\<lambda>a. a\<lparr>act_lastSeenAt := now,
                       act_osVersion := set_column (vl_osVersion d) (act_osVersion a),
                       act_appVersion := set_column (vl_appVersion d) (act_appVersion a)\<rparr>)"
  define g where "g = (\<lambda>a. if act_id a = act_id ex then f a else a)"
  define s1 where "s1 = licenseActivation_update (act_id ex) f s"
  have fresh: "\<not> isExpired l now" using Cons.prems(3) by simp
  have v: "validateLicense s now d = (\<lparr>lr_valid = True, lr_message = ''License validated successfully'',
                   lr_data = Some \<lparr>ld_licenseKey = lic_licenseKey l,
                     ld_plan = lic_plan l, ld_maxDevices = lic_maxDevices l,
                     ld_deviceCount = active_device_count s l,
                     ld_isActive = True\<rparr>,
                   lr_errorType = None, lr_purchaseUrl = None\<rparr>, s1)"
    unfolding s1_def f_def by (rule step5_found[OF key_ok Cons.prems(1) active fresh Cons.prems(2)])
  have f1: "license_findUnique s1 (vl_licenseKey d) = Some l"
    using Cons.prems(1) by (simp add: s1_def)
  have acts1: "active_activations_of s1 l = map g (active_activations_of s l)"
    unfolding s1_def g_def by (rule active_of_touch) (simp_all add: f_def)
  have gq: "\<And>a. (act_machineId (g a) = vl_machineId d \<and> act_isActive (g a))
               = (act_machineId a = vl_machineId d \<and> act_isActive a)"
    by (simp add: g_def f_def)
  have ex1: "find (\<lambda>a. act_machineId a = vl_machineId d \<and> act_isActive a) (active_activations_of s1 l) = Some (g ex)"
    unfolding acts1 using find_map_same[of "\<lambda>a. act_machineId a = vl_machineId d \<and> act_isActive a" g, OF gq]
    by (simp add: Cons.prems(2))
  have idg: "act_id (g ex) = act_id ex" by (simp add: g_def f_def)
  have c1: "active_device_count s1 l = active_device_count s l"
    by (simp add: active_device_count_def acts1)
  have first: "list_all2 (revalidated_only (act_id ex)) (licenseActivations s) (licenseActivations s1)"
    by (simp add: s1_def licenseActivation_update_def list_all2_map2 f_def list_all2_refl revalidated_only_touch)
  have lic1: "licenses s1 = licenses s" by (simp add: s1_def licenseActivation_update_def)
  have p3: "\<forall>now \<in> set nows. \<not> isExpired l now" using Cons.prems(3) by simp
  note ih = Cons.IH[OF f1 ex1 p3, unfolded idg c1 lic1]
  have all: "validateAll s (map (\<lambda>t. (t, d)) (now # nows))
      = (fst (validateLicense s now d) # fst (validateAll s1 (map (\<lambda>t. (t, d)) nows)),
         snd (validateAll s1 (map (\<lambda>t. (t, d)) nows)))"
    by (simp only: list.map validateAll_Cons v snd_conv)
  have tr: "list_all2 (revalidated_only (act_id ex)) (licenseActivations s)
              (licenseActivations (snd (validateAll s1 (map (\<lambda>t. (t, d)) nows))))"
    using list_all2_trans[of "revalidated_only (act_id ex)" "revalidated_only (act_id ex)" "revalidated_only (act_id ex)", OF _ first conjunct1[OF ih]]
      revalidated_only_trans by blast
  show ?case unfolding all using ih tr by (simp add: v)
qed


text \<open>
  Claim C3, as amended. On an active license of a well-formed key, for a machine that is
  already bound, validating the same pair again any number of times (at instants at
  which the license has not expired) succeeds every time and reports every time the
  active-device count from before the calls. No activation is added or removed: the
  rows stay in place, those of the one activation's id change in \<open>lastSeenAt\<close>,
  \<open>osVersion\<close> and \<open>appVersion\<close> at most, all other rows and the licenses stay as they
  are, and the active-device count is unchanged.
\<close>

theorem revalidation_keeps_slots:
  assumes key_ok: "isValidLicenseKeyFormat (vl_licenseKey d)"
    and found: "license_findUnique s (vl_licenseKey d) = Some l"
    and active: "lic_isActive l"
    and fresh: "\<forall>now \<in> set nows. \<not> isExpired l now"
    and bound: "bound_machine s l (vl_machineId d)"
  shows "\<exists>ex \<in> set (licenseActivations s).
           act_licenseId ex = lic_id l \<and> act_machineId ex = vl_machineId d \<and> act_isActive ex
         \<and> list_all2 (revalidated_only (act_id ex)) (licenseActivations s)
              (licenseActivations (snd (validateAll s (map (\<lambda>t. (t, d)) nows))))
         \<and> licenses (snd (validateAll s (map (\<lambda>t. (t, d)) nows))) = licenses s
         \<and> active_device_count (snd (validateAll s (map (\<lambda>t. (t, d)) nows))) l
             = active_device_count s l
         \<and> list_all (\<lambda>r. lr_valid r
                 \<and> map_option ld_deviceCount (lr_data r) = Some (active_device_count s l))
              (fst (validateAll s (map (\<lambda>t. (t, d)) nows)))
         \<and> length (fst (validateAll s (map (\<lambda>t. (t, d)) nows))) = length nows"
proof -
  from bound obtain ex where
    ex: "find (\<lambda>a. act_machineId a = vl_machineId d \<and> act_isActive a) (active_activations_of s l) = Some ex"
    using find_bound_iff[of "vl_machineId d" s l] by auto
  then have "ex \<in> set (active_activations_of s l)" "act_machineId ex = vl_machineId d"
    by (auto simp: find_Some_iff)
  then have mem: "ex \<in> set (licenseActivations s)" "act_licenseId ex = lic_id l"
    "act_machineId ex = vl_machineId d" "act_isActive ex"
    by (auto simp: active_activations_of_def activations_of_def)
  from revalidate_many[OF key_ok active found ex fresh] mem show ?thesis
    by (auto simp: length_validateAll intro!: bexI[of _ ex])
qed


text \<open>The theorem at three repeats for the one bound machine of a license.\<close>

theorem revalidation_keeps_slots_witness:
  "active_device_count
      (snd (validateAll (ex_db (ex_license 1 True None) [ex_activation 2 ''mac-A'' True])
              (map (\<lambda>t. (t, ex_dto ''mac-A'')) [10, 20, 30])))
      (ex_license 1 True None) = 1
   \<and> list_all (\<lambda>r. lr_valid r \<and> map_option ld_deviceCount (lr_data r) = Some 1)
        (fst (validateAll (ex_db (ex_license 1 True None) [ex_activation 2 ''mac-A'' True])
                (map (\<lambda>t. (t, ex_dto ''mac-A'')) [10, 20, 30])))"
proof -
  have h1: "isValidLicenseKeyFormat (vl_licenseKey (ex_dto ''mac-A''))"
    by (simp add: ex_dto_def ex_key_valid)
  have h2: "license_findUnique (ex_db (ex_license 1 True None) [ex_activation 2 ''mac-A'' True])
              (vl_licenseKey (ex_dto ''mac-A'')) = Some (ex_license 1 True None)"
    using ex_find[of "ex_license 1 True None" "[ex_activation 2 ''mac-A'' True]"]
    by (simp add: ex_license_def ex_dto_def)
  have h3: "lic_isActive (ex_license 1 True None)" by (simp add: ex_license_def)
  have h4: "\<forall>now \<in> set [10, 20, 30]. \<not> isExpired (ex_license 1 True None) now"
    by (simp add: isExpired_def ex_license_def)
  have h5: "bound_machine (ex_db (ex_license 1 True None) [ex_activation 2 ''mac-A'' True])
              (ex_license 1 True None) (vl_machineId (ex_dto ''mac-A''))"
    by (simp add: bound_machine_def ex_db_def ex_activation_def ex_license_def ex_dto_def)
  have c: "active_device_count (ex_db (ex_license 1 True None) [ex_activation 2 ''mac-A'' True])
             (ex_license 1 True None) = 1"
    by (simp add: active_device_count_def active_activations_of_def activations_of_def
        ex_db_def ex_activation_def ex_license_def)
  from revalidation_keeps_slots[OF h1 h2 h3 h4 h5] show ?thesis
    unfolding c by blast
qed


text \<open>
  The claim as it was stated has no condition on the license. A license that
  \<^verbatim>\<open>deactivateLicense\<close> has switched off keeps its activations:
\<close>

lemma deactivated_with_bound_machine:
  "snd (deactivateLicense (ex_db (ex_license 1 True None) [ex_activation 2 ''mac-A'' True]) ex_key)
     = ex_db (ex_license 1 False None) [ex_activation 2 ''mac-A'' True]"
  by (simp add: deactivateLicense_def license_findUnique_def ex_db_def ex_license_def)


text \<open>
  and there the bound machine is refused with \<open>inactive\<close> (step 3 comes before step 5),
  not validated.
\<close>

theorem revalidation_inactive_counterexample:
  "license_findUnique (ex_db (ex_license 1 False None) [ex_activation 2 ''mac-A'' True])
      (vl_licenseKey (ex_dto ''mac-A'')) = Some (ex_license 1 False None)
   \<and> bound_machine (ex_db (ex_license 1 False None) [ex_activation 2 ''mac-A'' True])
        (ex_license 1 False None) (vl_machineId (ex_dto ''mac-A''))
   \<and> lr_valid (fst (validateLicense
        (ex_db (ex_license 1 False None) [ex_activation 2 ''mac-A'' True]) 100 (ex_dto ''mac-A'')))
       = False
   \<and> lr_errorType (fst (validateLicense
        (ex_db (ex_license 1 False None) [ex_activation 2 ''mac-A'' True]) 100 (ex_dto ''mac-A'')))
       = Some inactive"
proof -
  have h1: "isValidLicenseKeyFormat (vl_licenseKey (ex_dto ''mac-A''))"
    by (simp add: ex_dto_def ex_key_valid)
  have h2: "license_findUnique (ex_db (ex_license 1 False None) [ex_activation 2 ''mac-A'' True])
              (vl_licenseKey (ex_dto ''mac-A'')) = Some (ex_license 1 False None)"
    using ex_find[of "ex_license 1 False None" "[ex_activation 2 ''mac-A'' True]"]
    by (simp add: ex_license_def ex_dto_def)
  have h3: "\<not> lic_isActive (ex_license 1 False None)" by (simp add: ex_license_def)
  have h5: "bound_machine (ex_db (ex_license 1 False None) [ex_activation 2 ''mac-A'' True])
              (ex_license 1 False None) (vl_machineId (ex_dto ''mac-A''))"
    by (simp add: bound_machine_def ex_db_def ex_activation_def ex_license_def ex_dto_def)
  show ?thesis using h2 h5 by (simp add: step3[OF h1 h2 h3])
qed

section \<open>Properties of \<^verbatim>\<open>deactivateDevice\<close>\<close>

lemma find_activation_iff:
  "(find (\<lambda>a. act_machineId a = m \<and> act_isActive a) (activations_of s l) = None)
     = (\<not> bound_machine s l m)"
  by (auto simp: find_None_iff bound_machine_def activations_of_def)

lemma deactivateDevice_no_license:
  "license_findUnique s k = None \<Longrightarrow>
     deactivateDevice s now k m = (Inl (NotFoundError ''License not found''), s)"
  by (simp add: deactivateDevice_def)

lemma deactivateDevice_no_device:
  "license_findUnique s k = Some l \<Longrightarrow> \<not> bound_machine s l m \<Longrightarrow>
     deactivateDevice s now k m = (Inl (NotFoundError ''Device activation not found''), s)"
  using find_activation_iff[of m s l] by (simp add: deactivateDevice_def)

lemma deactivateDevice_found:
  assumes "license_findUnique s k = Some l" "bound_machine s l m"
  shows "\<exists>a \<in> set (licenseActivations s).
           act_licenseId a = lic_id l \<and> act_machineId a = m \<and> act_isActive a
         \<and> deactivateDevice s now k m =
             (Inr (),
              license_update (lic_id l) (\<lambda>x. x\<lparr>lic_deviceCount := lic_deviceCount l - 1\<rparr>)
                (licenseActivation_update (act_id a)
                   (\<lambda>x. x\<lparr>act_isActive := False, act_deactivatedAt := Some now\<rparr>) s))"
proof -
  from assms(2) obtain a :: LicenseActivation where
    a: "find (\<lambda>a. act_machineId a = m \<and> act_isActive a) (activations_of s l) = Some a"
    using find_activation_iff[of m s l] by auto
  then have "a \<in> set (activations_of s l)" "act_machineId a = m" "act_isActive a"
    by (auto simp: find_Some_iff)
  then have "a \<in> set (licenseActivations s)" "act_licenseId a = lic_id l"
    "act_machineId a = m" "act_isActive a"
    by (auto simp: activations_of_def)
  then show ?thesis using a assms(1)
    by (auto simp: deactivateDevice_def intro!: bexI[of _ a])
qed


text \<open>
  Claim C4. \<^verbatim>\<open>deactivateDevice\<close> fails with \<^verbatim>\<open>NotFoundError\<close> exactly when the store has
  no license of the key with an active activation for the machine (no such license, or
  no activation for the machine, or only inactive ones); then the store is left as it
  is, so nothing is decremented for an activation that is already inactive. Otherwise it
  succeeds: the activation found (the rows of its id) becomes inactive with \<open>now\<close> as its
  deactivation time, every other activation stays as it is, and the cached device count
  of the license becomes the count read minus one.
\<close>

theorem deactivateDevice_paired:
  "((\<exists>msg. fst (deactivateDevice s now k m) = Inl (NotFoundError msg))
      = (\<not> (\<exists>l. license_findUnique s k = Some l \<and> bound_machine s l m)))
   \<and> (\<not> (\<exists>l. license_findUnique s k = Some l \<and> bound_machine s l m)
        \<longrightarrow> snd (deactivateDevice s now k m) = s)
   \<and> (\<forall>l. license_findUnique s k = Some l \<and> bound_machine s l m \<longrightarrow>
          fst (deactivateDevice s now k m) = Inr ()
        \<and> (\<exists>a \<in> set (licenseActivations s).
              act_licenseId a = lic_id l \<and> act_machineId a = m \<and> act_isActive a
            \<and> licenseActivations (snd (deactivateDevice s now k m))
                = map (\<lambda>x. if act_id x = act_id a
                            then x\<lparr>act_isActive := False, act_deactivatedAt := Some now\<rparr>
                            else x) (licenseActivations s))
        \<and> licenses (snd (deactivateDevice s now k m))
            = map (\<lambda>x. if lic_id x = lic_id l
                        then x\<lparr>lic_deviceCount := lic_deviceCount l - 1\<rparr> else x) (licenses s)
        \<and> map_option lic_deviceCount (license_findUnique (snd (deactivateDevice s now k m)) k)
            = Some (lic_deviceCount l - 1))"
proof (cases "license_findUnique s k")
  case None
  then show ?thesis by (simp add: deactivateDevice_no_license)
next
  case (Some l)
  show ?thesis
  proof (cases "bound_machine s l m")
    case False
    then show ?thesis using Some by (simp add: deactivateDevice_no_device)
  next
    case True
    from deactivateDevice_found[OF Some True, of now] obtain a :: LicenseActivation where
      a: "a \<in> set (licenseActivations s)" "act_licenseId a = lic_id l" "act_machineId a = m"
         "act_isActive a"
         "deactivateDevice s now k m =
             (Inr (),
              license_update (lic_id l) (\<lambda>x. x\<lparr>lic_deviceCount := lic_deviceCount l - 1\<rparr>)
                (licenseActivation_update (act_id a)
                   (\<lambda>x. x\<lparr>act_isActive := False, act_deactivatedAt := Some now\<rparr>) s))"
      by blast
    have f: "license_findUnique (snd (deactivateDevice s now k m)) k
             = Some (l\<lparr>lic_deviceCount := lic_deviceCount l - 1\<rparr>)"
      using Some by (simp add: a(5) license_find_after_update)
    have acts: "licenseActivations (snd (deactivateDevice s now k m))
                = map (\<lambda>x. if act_id x = act_id a
                            then x\<lparr>act_isActive := False, act_deactivatedAt := Some now\<rparr>
                            else x) (licenseActivations s)"
      by (simp add: a(5) license_update_def licenseActivation_update_def)
    have lics: "licenses (snd (deactivateDevice s now k m))
            = map (\<lambda>x. if lic_id x = lic_id l
                        then x\<lparr>lic_deviceCount := lic_deviceCount l - 1\<rparr> else x) (licenses s)"
      by (simp add: a(5) license_update_def licenseActivation_update_def)
    have ok: "fst (deactivateDevice s now k m) = Inr ()" by (simp add: a(5))
    show ?thesis
      using Some True a(1-4) acts lics f ok by (auto intro!: bexI[of _ a])
  qed
qed


text \<open>
  The theorem at a license with one active device (cached count 1) and one device
  deactivated before: removing the first succeeds and leaves the count at 0; removing
  the second again is \<^verbatim>\<open>NotFoundError\<close> and changes nothing.
\<close>

theorem deactivateDevice_paired_witness:
  "fst (deactivateDevice ex_db_devices 50 ex_key ''mac-A'') = Inr ()
   \<and> map_option lic_deviceCount
        (license_findUnique (snd (deactivateDevice ex_db_devices 50 ex_key ''mac-A'')) ex_key)
       = Some 0
   \<and> (\<exists>msg. fst (deactivateDevice ex_db_devices 50 ex_key ''mac-B'') = Inl (NotFoundError msg))
   \<and> snd (deactivateDevice ex_db_devices 50 ex_key ''mac-B'') = ex_db_devices"
proof -
  define L where "L = (ex_license 2 True None)\<lparr>lic_deviceCount := 1\<rparr>"
  have f: "license_findUnique ex_db_devices ex_key = Some L"
    by (simp add: ex_db_devices_def L_def license_findUnique_def ex_db_def ex_license_def)
  have a: "bound_machine ex_db_devices L ''mac-A''"
    by (simp add: ex_db_devices_def L_def bound_machine_def ex_db_def ex_license_def ex_activation_def)
  have b: "\<not> bound_machine ex_db_devices L ''mac-B''"
    by (simp add: ex_db_devices_def L_def bound_machine_def ex_db_def ex_license_def ex_activation_def)
  have nb: "\<not> (\<exists>l. license_findUnique ex_db_devices ex_key = Some l \<and> bound_machine ex_db_devices l ''mac-B'')"
    using f b by simp
  have c: "lic_deviceCount L = 1" by (simp add: L_def)
  from deactivateDevice_paired[of ex_db_devices 50 ex_key "''mac-A''"] f a c
  have A: "fst (deactivateDevice ex_db_devices 50 ex_key ''mac-A'') = Inr ()"
    "map_option lic_deviceCount
        (license_findUnique (snd (deactivateDevice ex_db_devices 50 ex_key ''mac-A'')) ex_key)
       = Some 0"
    by auto
  from deactivateDevice_paired[of ex_db_devices 50 ex_key "''mac-B''"] nb
  have B: "\<exists>msg. fst (deactivateDevice ex_db_devices 50 ex_key ''mac-B'') = Inl (NotFoundError msg)"
    "snd (deactivateDevice ex_db_devices 50 ex_key ''mac-B'') = ex_db_devices"
    by blast+
  from A B show ?thesis by blast
qed

section \<open>Properties of \<^verbatim>\<open>versionToBuildNumber\<close>\<close>

lemma digits_no_dot: "list_all isDigit ds \<Longrightarrow> CHR ''.'' \<notin> set ds"
  by (auto simp: list_all_iff isDigit_def Let_def)

lemma split_dot_nonempty: "split_dot v \<noteq> []"
  by (induction v) (auto split: list.splits)

lemma split_dot_plain: "CHR ''.'' \<notin> set a \<Longrightarrow> split_dot a = [a]"
  by (induction a) auto

lemma split_dot_append: "CHR ''.'' \<notin> set a \<Longrightarrow> split_dot (a @ CHR ''.'' # rest) = a # split_dot rest"
  by (induction a) auto

text \<open>On a run of decimal digits \<^verbatim>\<open>Number\<close> is the decimal value.\<close>

lemma space_width_digit: "isDigit c \<Longrightarrow> space_width (c # cs) = 0"
  by (auto simp: space_width_def isDigit_def wide_space_def Let_def split: list.splits)

lemma skip_space_digits: "list_all isDigit ds \<Longrightarrow> skip_space ds = ds"
  by (cases ds) (simp_all add: space_width_digit)

lemma trim_end_digits: "list_all isDigit ds \<Longrightarrow> trim_end ds = ds"
  by (induction ds) (simp_all add: space_width_digit)

lemma trim_digits: "list_all isDigit ds \<Longrightarrow> trim ds = ds"
  by (simp add: trim_def skip_space_digits trim_end_digits)

lemma isDigit_not_letter:
  "isDigit c \<Longrightarrow> c \<notin> {CHR ''x'', CHR ''X'', CHR ''o'', CHR ''O'', CHR ''b'', CHR ''B'',
      CHR ''-'', CHR ''+'', CHR ''I''}"
  by (auto simp: isDigit_def)

lemma radix_literal_digits: "list_all isDigit ds \<Longrightarrow> radix_literal ds = None"
proof (cases ds)
  case Nil
  then show ?thesis by (simp add: radix_literal_def)
next
  case (Cons z r)
  assume d: "list_all isDigit ds"
  show ?thesis
  proof (cases r)
    case Nil
    then show ?thesis using Cons by (simp add: radix_literal_def)
  next
    case (Cons x r')
    with d \<open>ds = z # r\<close> have "isDigit x" by simp
    from isDigit_not_letter[OF this] show ?thesis
      using Cons \<open>ds = z # r\<close> by (simp add: radix_literal_def)
  qed
qed

lemma unsigned_literal_digits:
  assumes "list_all isDigit ds" "ds \<noteq> []"
  shows "unsigned_literal ds = exact_integer (int (digits_value ds))"
proof -
  have all: "\<forall>x \<in> set ds. isDigit x" using assms(1) by (simp add: list_all_iff)
  have tw: "takeWhile isDigit ds = ds" using all by (simp add: takeWhile_eq_all_conv)
  have dw: "dropWhile isDigit ds = []" using all by (simp add: dropWhile_eq_Nil_conv)
  have inf: "ds \<noteq> ''Infinity''"
    using assms(1) by (auto simp: isDigit_def)
  show ?thesis using assms(2) inf by (simp add: unsigned_literal_def tw dw)
qed

lemma Number_js_digits:
  assumes "list_all isDigit ds" "int (digits_value ds) \<le> 2 ^ 53"
  shows "Number_js ds = Num (int (digits_value ds))"
proof (cases ds)
  case Nil
  then show ?thesis by (simp add: Number_js_def trim_def digits_value_def)
next
  case (Cons c cs)
  then have ne: "ds \<noteq> []" and c: "isDigit c" using assms(1) by auto
  have sign: "take 1 ds \<noteq> ''-''" "take 1 ds \<noteq> ''+''"
    using Cons c isDigit_not_letter[of c] by auto
  show ?thesis
    using ne sign assms(2)
    by (simp add: Number_js_def trim_digits[OF assms(1)] radix_literal_digits[OF assms(1)]
        unsigned_literal_digits[OF assms(1) ne] exact_integer_def)
qed

lemma vtb3:
  assumes "list_all isDigit major" "list_all isDigit minor" "list_all isDigit patch"
    "int (digits_value major) * 10000 + int (digits_value minor) * 100 + int (digits_value patch) \<le> 2 ^ 53"
  shows "versionToBuildNumber (major @ ''.'' @ minor @ ''.'' @ patch)
         = Num (int (digits_value major) * 10000 + int (digits_value minor) * 100
                 + int (digits_value patch))"
proof -
  have b: "int (digits_value major) \<le> 2 ^ 53" "int (digits_value minor) \<le> 2 ^ 53"
    "int (digits_value patch) \<le> 2 ^ 53"
    using assms(4) by linarith+
  have n: "Number_js major = Num (int (digits_value major))"
    "Number_js minor = Num (int (digits_value minor))"
    "Number_js patch = Num (int (digits_value patch))"
    using assms(1-3) b by (simp_all add: Number_js_digits)
  have parts: "split_dot (major @ ''.'' @ minor @ ''.'' @ patch) = [major, minor, patch]"
    using assms(1-3) by (simp add: split_dot_plain split_dot_append digits_no_dot)
  have r: "\<bar>int (digits_value major) * 10000\<bar> \<le> 2 ^ 53"
    "\<bar>int (digits_value minor) * 100\<bar> \<le> 2 ^ 53"
    "\<bar>int (digits_value major) * 10000 + int (digits_value minor) * 100\<bar> \<le> 2 ^ 53"
    "\<bar>int (digits_value major) * 10000 + int (digits_value minor) * 100
        + int (digits_value patch)\<bar> \<le> 2 ^ 53"
    using assms(4) by linarith+
  show ?thesis
    unfolding versionToBuildNumber_def parts
    using r by (simp add: n part_or_0_def)
qed

lemma vtb2:
  assumes "list_all isDigit major" "list_all isDigit minor"
    "int (digits_value major) * 10000 + int (digits_value minor) * 100 \<le> 2 ^ 53"
  shows "versionToBuildNumber (major @ ''.'' @ minor)
         = Num (int (digits_value major) * 10000 + int (digits_value minor) * 100)"
proof -
  have b: "int (digits_value major) \<le> 2 ^ 53" "int (digits_value minor) \<le> 2 ^ 53"
    using assms(3) by linarith+
  have n: "Number_js major = Num (int (digits_value major))"
    "Number_js minor = Num (int (digits_value minor))"
    using assms(1-2) b by (simp_all add: Number_js_digits)
  have parts: "split_dot (major @ ''.'' @ minor) = [major, minor]"
    using assms(1-2) by (simp add: split_dot_plain split_dot_append digits_no_dot)
  have r: "\<bar>int (digits_value major) * 10000\<bar> \<le> 2 ^ 53"
    "\<bar>int (digits_value minor) * 100\<bar> \<le> 2 ^ 53"
    "\<bar>int (digits_value major) * 10000 + int (digits_value minor) * 100\<bar> \<le> 2 ^ 53"
    using assms(3) by linarith+
  show ?thesis
    unfolding versionToBuildNumber_def parts
    using r by (simp add: n part_or_0_def)
qed

lemma vtb1:
  assumes "list_all isDigit major" "int (digits_value major) * 10000 \<le> 2 ^ 53"
  shows "versionToBuildNumber major = Num (int (digits_value major) * 10000)"
proof -
  have b: "int (digits_value major) \<le> 2 ^ 53" using assms(2) by linarith
  have n: "Number_js major = Num (int (digits_value major))"
    using assms(1) b by (simp add: Number_js_digits)
  have parts: "split_dot major = [major]"
    using assms(1) by (simp add: split_dot_plain digits_no_dot)
  have r: "\<bar>int (digits_value major) * 10000\<bar> \<le> 2 ^ 53"
    using assms(2) by linarith
  show ?thesis
    unfolding versionToBuildNumber_def parts
    using r by (simp add: n part_or_0_def)
qed

text \<open>
  The build numbers of some versions: a suffix on the patch makes the patch count 0; a
  letter before the major makes the result \<^verbatim>\<open>NaN\<close>.
\<close>

lemma vtb_108: "versionToBuildNumber ''1.0.8'' = Num 10008"
  by code_simp

lemma vtb_120: "versionToBuildNumber ''1.2.0'' = Num 10200"
  by code_simp

lemma vtb_beta: "versionToBuildNumber ''1.0.9-beta'' = Num 10000"
  by code_simp

lemma vtb_v: "versionToBuildNumber ''v1.0.0'' = NaN"
  by code_simp

text \<open>
  Claim C9. For a version of decimal pieces \<open>major.minor.patch\<close> (with the sum in the
  range where JavaScript's arithmetic is exact), \<^verbatim>\<open>versionToBuildNumber\<close> is
  \<open>major * 10000 + minor * 100 + patch\<close>; a version without its patch, or without its
  minor and patch, counts the missing pieces as 0. Two versions of the same weighted
  score have the same build number, whatever their text. In particular \<^verbatim>\<open>"1.0.8"\<close>
  gives 10008 and \<^verbatim>\<open>"1.2.0"\<close> gives 10200.
\<close>

theorem versionToBuildNumber_weighted:
  assumes major: "list_all isDigit major"
    and minor: "list_all isDigit minor"
    and patch: "list_all isDigit patch"
    and range: "int (digits_value major) * 10000 + int (digits_value minor) * 100
                  + int (digits_value patch) \<le> 2 ^ 53"
  shows "versionToBuildNumber (major @ ''.'' @ minor @ ''.'' @ patch)
           = Num (int (digits_value major) * 10000 + int (digits_value minor) * 100
                   + int (digits_value patch))
       \<and> versionToBuildNumber (major @ ''.'' @ minor)
           = Num (int (digits_value major) * 10000 + int (digits_value minor) * 100 + 0)
       \<and> versionToBuildNumber major = Num (int (digits_value major) * 10000 + 0 * 100 + 0)
       \<and> (\<forall>major' minor' patch'.
             list_all isDigit major' \<and> list_all isDigit minor' \<and> list_all isDigit patch'
             \<and> int (digits_value major') * 10000 + int (digits_value minor') * 100
                 + int (digits_value patch')
               = int (digits_value major) * 10000 + int (digits_value minor) * 100
                 + int (digits_value patch)
             \<longrightarrow> versionToBuildNumber (major' @ ''.'' @ minor' @ ''.'' @ patch')
                 = versionToBuildNumber (major @ ''.'' @ minor @ ''.'' @ patch))
       \<and> versionToBuildNumber ''1.0.8'' = Num 10008
       \<and> versionToBuildNumber ''1.2.0'' = Num 10200"
proof -
  have three: "versionToBuildNumber (major @ ''.'' @ minor @ ''.'' @ patch)
           = Num (int (digits_value major) * 10000 + int (digits_value minor) * 100
                   + int (digits_value patch))"
    by (rule vtb3[OF major minor patch range])
  have r2: "int (digits_value major) * 10000 + int (digits_value minor) * 100 \<le> 2 ^ 53"
    using range by linarith
  have r1: "int (digits_value major) * 10000 \<le> 2 ^ 53"
    using range by linarith
  have two: "versionToBuildNumber (major @ ''.'' @ minor)
           = Num (int (digits_value major) * 10000 + int (digits_value minor) * 100 + 0)"
    using vtb2[OF major minor r2] by simp
  have one: "versionToBuildNumber major = Num (int (digits_value major) * 10000 + 0 * 100 + 0)"
    using vtb1[OF major r1] by simp
  have same: "\<forall>major' minor' patch'.
             list_all isDigit major' \<and> list_all isDigit minor' \<and> list_all isDigit patch'
             \<and> int (digits_value major') * 10000 + int (digits_value minor') * 100
                 + int (digits_value patch')
               = int (digits_value major) * 10000 + int (digits_value minor) * 100
                 + int (digits_value patch)
             \<longrightarrow> versionToBuildNumber (major' @ ''.'' @ minor' @ ''.'' @ patch')
                 = versionToBuildNumber (major @ ''.'' @ minor @ ''.'' @ patch)"
  proof (intro allI impI)
    fix major' minor' patch'
    assume h: "list_all isDigit major' \<and> list_all isDigit minor' \<and> list_all isDigit patch'
             \<and> int (digits_value major') * 10000 + int (digits_value minor') * 100
                 + int (digits_value patch')
               = int (digits_value major) * 10000 + int (digits_value minor) * 100
                 + int (digits_value patch)"
    then have "int (digits_value major') * 10000 + int (digits_value minor') * 100
                 + int (digits_value patch') \<le> 2 ^ 53"
      using range by simp
    with h have "versionToBuildNumber (major' @ ''.'' @ minor' @ ''.'' @ patch')
           = Num (int (digits_value major') * 10000 + int (digits_value minor') * 100
                   + int (digits_value patch'))"
      by (intro vtb3) simp_all
    with h three show "versionToBuildNumber (major' @ ''.'' @ minor' @ ''.'' @ patch')
                 = versionToBuildNumber (major @ ''.'' @ minor @ ''.'' @ patch)"
      by simp
  qed
  have a: "versionToBuildNumber ''1.0.8'' = Num 10008"
    by code_simp
  have b: "versionToBuildNumber ''1.2.0'' = Num 10200"
    by code_simp
  from three two one same a b show ?thesis by blast
qed


text \<open>
  The theorem at \<^verbatim>\<open>"1.0.100"\<close>: its build number is 10100, the same as that of
  \<^verbatim>\<open>"1.1.0"\<close>; \<^verbatim>\<open>"1.0"\<close> and \<^verbatim>\<open>"1"\<close> both give 10000.
\<close>

theorem versionToBuildNumber_weighted_witness:
  "versionToBuildNumber ''1.0.100'' = Num 10100
   \<and> versionToBuildNumber ''1.1.0'' = versionToBuildNumber ''1.0.100''
   \<and> versionToBuildNumber ''1.0'' = Num 10000
   \<and> versionToBuildNumber ''1'' = Num 10000"
proof -
  have d: "list_all isDigit ''1''" "list_all isDigit ''0''" "list_all isDigit ''100''"
    by (simp_all add: isDigit_def)
  have v: "digits_value ''1'' = 1" "digits_value ''0'' = 0" "digits_value ''100'' = 100"
    by (simp_all add: digits_value_def)
  have r: "int (digits_value ''1'') * 10000 + int (digits_value ''0'') * 100
             + int (digits_value ''100'') \<le> 2 ^ 53"
    by (simp add: v)
  note w = versionToBuildNumber_weighted[OF d(1) d(2) d(3) r, unfolded v]
  have e: "versionToBuildNumber ''1.1.0'' = versionToBuildNumber ''1.0.100''"
    using conjunct1[OF conjunct2[OF conjunct2[OF conjunct2[OF w]]], rule_format, of "''1''" "''1''" "''0''"]
    using d by (simp add: v)
  from w e show ?thesis by simp
qed

section \<open>Properties of \<^verbatim>\<open>checkForUpdate\<close>\<close>







lemma Number_of_BigInt_rounds:
  "Number_of_BigInt (2 ^ 53 + 1) = 2 ^ 53" "Number_of_BigInt (2 ^ 53 + 3) = 2 ^ 53 + 4"
  "Number_of_BigInt (- (2 ^ 54 + 6)) = - (2 ^ 54 + 8)"
  by (simp_all add: Number_of_BigInt_def round_to_double_def bitlen.simps Let_def)



subsection \<open>The platform of the client\<close>

lemma from_platform:
  "fst (checkForUpdate_from s now cur (d\<lparr>ck_platform := p\<rparr>)) = fst (checkForUpdate_from s now cur d)"
  by (simp add: checkForUpdate_from_def split: option.splits)

lemma from_platform_target:
  "map uh_updateId (updateHistories (snd (checkForUpdate_from s now cur (d\<lparr>ck_platform := p\<rparr>))))
     = map uh_updateId (updateHistories (snd (checkForUpdate_from s now cur d)))"
  by (simp add: checkForUpdate_from_def recordUpdateHistory_def split: option.splits)

lemma service_platform:
  "map_option fst (checkForUpdate s now (d\<lparr>ck_platform := p\<rparr>)) = map_option fst (checkForUpdate s now d)"
  by (cases "versionToBuildNumber (ck_version d)")
     (simp_all add: checkForUpdate_def from_platform)

lemma service_platform_any:
  assumes "ck_version d' = ck_version d" "ck_userId d' = ck_userId d" "ck_appVersion d' = ck_appVersion d"
  shows "map_option fst (checkForUpdate s now d') = map_option fst (checkForUpdate s now d)"
proof -
  have "d' = d\<lparr>ck_platform := ck_platform d'\<rparr>" using assms by (cases d, cases d') simp
  then show ?thesis
    using service_platform[where s = s and now = now and d = d and p = "ck_platform d'"] by simp
qed

lemma service_platform_post:
  assumes "ck_version d' = ck_version d" "ck_userId d' = ck_userId d" "ck_appVersion d' = ck_appVersion d"
  shows "map_option (\<lambda>x. g (fst x)) (checkForUpdate s now d')
         = map_option (\<lambda>x. g (fst x)) (checkForUpdate s now d)"
proof -
  have "map_option g (map_option fst (checkForUpdate s now d'))
        = map_option g (map_option fst (checkForUpdate s now d))"
    using service_platform_any[OF assms] by simp
  then show ?thesis by (simp add: option.map_comp o_def)
qed

lemma checkUpdate_issues_platform [simp]:
  "checkUpdate_issues (q\<lparr>q_platform := p\<rparr>) = checkUpdate_issues q"
  by (simp add: checkUpdate_issues_def)

lemma route_platform:
  "map_option (map_sum id fst) (checkForUpdate_route s now (q\<lparr>q_platform := p\<rparr>))
     = map_option (map_sum id fst) (checkForUpdate_route s now q)"
proof (cases "checkUpdate_issues q")
  case Nil
  then obtain v u where vu: "q_version q = Some v" "q_userId q = Some u" "v \<noteq> []" "u \<noteq> []"
    by (auto simp: checkUpdate_issues_def split: option.splits if_splits)
  show ?thesis
    using vu Nil
    by (simp add: checkForUpdate_route_def validateQuery_def checkUpdateSchema_def
        checkForUpdate_controller_def option.map_comp o_def)
       (rule service_platform_post; simp)
next
  case (Cons a as)
  then show ?thesis
    by (simp add: checkForUpdate_route_def validateQuery_def checkUpdateSchema_def)
qed

text \<open>
  Claim C10. Two update checks that differ in the platform alone get the same
  response: the same \<open>updateAvailable\<close> and the same release with the same metadata.
  This holds of the service, of the service from any build number on (where also the
  history rows name the same release), and of the route, whether the platform is given
  or left to its default \<^verbatim>\<open>darwin\<close>.
\<close>

theorem checkForUpdate_platform_blind:
  "map_option fst (checkForUpdate s now (d\<lparr>ck_platform := p\<rparr>))
     = map_option fst (checkForUpdate s now d)
   \<and> fst (checkForUpdate_from s now cur (d\<lparr>ck_platform := p\<rparr>))
     = fst (checkForUpdate_from s now cur d)
   \<and> map uh_updateId (updateHistories (snd (checkForUpdate_from s now cur (d\<lparr>ck_platform := p\<rparr>))))
     = map uh_updateId (updateHistories (snd (checkForUpdate_from s now cur d)))
   \<and> map_option (map_sum id fst) (checkForUpdate_route s now (q\<lparr>q_platform := p'\<rparr>))
     = map_option (map_sum id fst) (checkForUpdate_route s now q)"
  using service_platform from_platform from_platform_target route_platform by blast



text \<open>The theorem at the example releases, for \<^verbatim>\<open>win32\<close> and \<^verbatim>\<open>darwin\<close>.\<close>

theorem checkForUpdate_platform_blind_witness:
  "map_option fst (checkForUpdate ex_releases 7 (ex_check ''1.0.0'' ''win32''))
     = map_option fst (checkForUpdate ex_releases 7 (ex_check ''1.0.0'' ''darwin''))
   \<and> map_option (\<lambda>x. ur_updateAvailable (fst x))
        (checkForUpdate ex_releases 7 (ex_check ''1.0.0'' ''darwin'')) = Some True"
proof -
  have e: "(ex_check ''1.0.0'' ''darwin'')\<lparr>ck_platform := ''win32''\<rparr> = ex_check ''1.0.0'' ''win32''"
    by (simp add: ex_check_def)
  have c: "versionToBuildNumber (ck_version (ex_check ''1.0.0'' ''darwin'')) = Num 10000"
    unfolding ex_check_def by code_simp
  have a: "map_option (\<lambda>x. ur_updateAvailable (fst x))
        (checkForUpdate ex_releases 7 (ex_check ''1.0.0'' ''darwin'')) = Some True"
    by (simp add: checkForUpdate_def c checkForUpdate_from_def update_findFirst_latest_def
        update_candidates_def ex_releases_def ex_update_def)
  from checkForUpdate_platform_blind[where s = ex_releases and now = 7
      and d = "ex_check ''1.0.0'' ''darwin''" and p = "''win32''"] a
  show ?thesis unfolding e by blast
qed

section \<open>Properties of \<^verbatim>\<open>createUpdate\<close>\<close>

lemma find_version_None:
  "(find (\<lambda>u. upd_version u = v) (updates s) = None) = (v \<notin> upd_version ` set (updates s))"
  by (auto simp: find_None_iff)


text \<open>
  Claim C6, as amended. \<^verbatim>\<open>createUpdate\<close> with a version the store already has fails
  with a \<^verbatim>\<open>BadRequestError\<close> (not a \<^verbatim>\<open>ConflictError\<close>) and leaves the store, and so the
  existing release, as it is. With a version the store does not have, it adds one
  release with the given fields, active and with a download counter of 0.
\<close>

theorem createUpdate_duplicate_is_bad_request:
  "(cu_version data \<in> upd_version ` set (updates s) \<longrightarrow>
        fst (createUpdate s data)
          = Inl (BadRequestError (''Update version '' @ cu_version data @ '' already exists''))
      \<and> snd (createUpdate s data) = s)
   \<and> (cu_version data \<notin> upd_version ` set (updates s) \<longrightarrow>
        (\<exists>u. fst (createUpdate s data) = Inr u
            \<and> upd_isActive u \<and> upd_downloadCount u = 0
            \<and> upd_version u = cu_version data \<and> upd_buildNumber u = cu_buildNumber data
            \<and> upd_releaseType u = cu_releaseType data \<and> upd_filename u = cu_filename data
            \<and> upd_fileSize u = cu_fileSize data \<and> upd_checksum u = cu_checksum data
            \<and> upd_releaseNotes u = cu_releaseNotes data
            \<and> upd_forceUpdate u = cu_forceUpdate data
            \<and> updates (snd (createUpdate s data)) = updates s @ [u]))"
proof (cases "find (\<lambda>u. upd_version u = cu_version data) (updates s)")
  case None
  then have "cu_version data \<notin> upd_version ` set (updates s)"
    by (simp add: find_version_None)
  then show ?thesis using None by (simp add: createUpdate_def Let_def)
next
  case (Some existing)
  then have "cu_version data \<in> upd_version ` set (updates s)"
    using find_version_None[of "cu_version data" s] by auto
  then show ?thesis using Some by (simp add: createUpdate_def)
qed


text \<open>The theorem at the example releases, for 1.0.9 again and for the new 1.0.12.\<close>

theorem createUpdate_duplicate_is_bad_request_witness:
  "fst (createUpdate ex_releases (ex_release_dto ''1.0.9'' 10020))
     = Inl (BadRequestError ''Update version 1.0.9 already exists'')
   \<and> snd (createUpdate ex_releases (ex_release_dto ''1.0.9'' 10020)) = ex_releases
   \<and> (\<exists>u. fst (createUpdate ex_releases (ex_release_dto ''1.0.12'' 10012)) = Inr u
          \<and> upd_isActive u \<and> upd_downloadCount u = 0)"
proof -
  have a: "cu_version (ex_release_dto ''1.0.9'' 10020) \<in> upd_version ` set (updates ex_releases)"
    by (simp add: ex_release_dto_def ex_releases_def ex_update_def)
  have b: "cu_version (ex_release_dto ''1.0.12'' 10012) \<notin> upd_version ` set (updates ex_releases)"
    by (simp add: ex_release_dto_def ex_releases_def ex_update_def)
  have v: "cu_version (ex_release_dto ''1.0.9'' 10020) = ''1.0.9''"
    by (simp add: ex_release_dto_def)
  from createUpdate_duplicate_is_bad_request[of "ex_release_dto ''1.0.9'' 10020" ex_releases] a
  have A: "fst (createUpdate ex_releases (ex_release_dto ''1.0.9'' 10020))
     = Inl (BadRequestError ''Update version 1.0.9 already exists'')"
    "snd (createUpdate ex_releases (ex_release_dto ''1.0.9'' 10020)) = ex_releases"
    by (simp_all add: v)
  from createUpdate_duplicate_is_bad_request[of "ex_release_dto ''1.0.12'' 10012" ex_releases] b
  have B: "\<exists>u. fst (createUpdate ex_releases (ex_release_dto ''1.0.12'' 10012)) = Inr u
          \<and> upd_isActive u \<and> upd_downloadCount u = 0"
    by blast
  from A B show ?thesis by blast
qed


text \<open>
  The claim as stated classes the failure as a conflict. Creating 1.0.9 again throws
  \<^verbatim>\<open>BadRequestError\<close>, the class of a malformed request, and not the \<^verbatim>\<open>ConflictError\<close>
  that \<^verbatim>\<open>utils/errors\<close> also has.
\<close>

theorem createUpdate_conflict_counterexample:
  "upd_version (ex_update 1 ''1.0.9'' 10009 True) = cu_version (ex_release_dto ''1.0.9'' 10020)
   \<and> ex_update 1 ''1.0.9'' 10009 True \<in> set (updates ex_releases)
   \<and> fst (createUpdate ex_releases (ex_release_dto ''1.0.9'' 10020))
       = Inl (BadRequestError ''Update version 1.0.9 already exists'')
   \<and> fst (createUpdate ex_releases (ex_release_dto ''1.0.9'' 10020))
       \<noteq> Inl (ConflictError ''Update version 1.0.9 already exists'')"
  by (simp add: createUpdate_def ex_releases_def ex_update_def ex_release_dto_def)


section \<open>Properties of \<^verbatim>\<open>createLicense\<close>\<close>

lemma parse_plan_None_iff: "(parse_plan name = None) = (name \<notin> set plan_tiers)"
  by (simp add: parse_plan_def plan_tiers_def)

lemma parse_plan_name: "parse_plan name = Some p \<Longrightarrow> plan_name p = name"
  by (auto simp: parse_plan_def plan_name_def split: if_splits)

lemma getMaxDevicesForPlan_table:
  "getMaxDevicesForPlan Individual = 1" "getMaxDevicesForPlan Two_Devices = 2"
  "getMaxDevicesForPlan Five_Devices = 5" "getMaxDevicesForPlan Enterprise = 999"
  by (simp_all add: getMaxDevicesForPlan_def planMap_def plan_name_def)

lemma getMaxDevicesForPlan_by_name:
  "getMaxDevicesForPlan p
     = (if plan_name p = ''Individual'' then 1
        else if plan_name p = ''2 Devices'' then 2
        else if plan_name p = ''5 Devices'' then 5
        else 999)"
  by (cases p) (simp_all add: getMaxDevicesForPlan_table, simp_all add: plan_name_def)

lemma issues_none_iff:
  "(email_issues isEmail email @ max_devices_issues override = [])
     = ((\<forall>e. email = Some e \<longrightarrow> isEmail e) \<and> (\<forall>n. override = Some n \<longrightarrow> 0 < n))"
  by (auto simp: email_issues_def max_devices_issues_def split: option.splits)

lemma validateBody_fails:
  "schema body = Inl issues \<Longrightarrow> \<exists>msg. validateBody schema body = Inl (BadRequestError msg)"
  by (simp add: validateBody_def)

text \<open>
  Claim C7. Creating a license through its route: a plan outside the four tiers fails
  (the schema's validation error) and leaves the store as it is. A license that is
  created has \<open>maxDevices\<close> equal to the override when one was given, and otherwise to
  the table's value for its plan (Individual 1, 2 Devices 2, 5 Devices 5, Enterprise
  999); it is active, with a device count of 0. And a request of an enumerated plan, with
  a well-formed email and a positive override if it has them, and a key the store does
  not have, does create a license.
\<close>

theorem createLicense_route_quota:
  "(cb_plan body \<notin> set plan_tiers \<longrightarrow>
        (\<exists>msg. fst (createLicense_route isEmail s now key body) = Inl (BadRequestError msg))
      \<and> snd (createLicense_route isEmail s now key body) = s)
   \<and> (\<forall>license. fst (createLicense_route isEmail s now key body) = Inr license \<longrightarrow>
          lic_maxDevices license
            = (case cb_max_devices body of
                 Some override \<Rightarrow> override
               | None \<Rightarrow>
                   if cb_plan body = ''Individual'' then 1
                   else if cb_plan body = ''2 Devices'' then 2
                   else if cb_plan body = ''5 Devices'' then 5
                   else 999)
        \<and> cb_plan body \<in> {''Individual'', ''2 Devices'', ''5 Devices'', ''Enterprise''}
        \<and> lic_isActive license \<and> lic_deviceCount license = 0
        \<and> lic_plan license = cb_plan body \<and> lic_email license = cb_email body
        \<and> lic_licenseKey license = key
        \<and> licenses (snd (createLicense_route isEmail s now key body)) = licenses s @ [license])
   \<and> (cb_plan body \<in> set plan_tiers
        \<and> (\<forall>e. cb_email body = Some e \<longrightarrow> isEmail e)
        \<and> (\<forall>n. cb_max_devices body = Some n \<longrightarrow> 0 < n)
        \<and> license_findUnique s key = None
        \<longrightarrow> (\<exists>license. fst (createLicense_route isEmail s now key body) = Inr license))"
proof (cases "parse_plan (cb_plan body)")
  case None
  then have out: "cb_plan body \<notin> set plan_tiers" by (simp add: parse_plan_None_iff)
  have "\<exists>issues. createLicenseSchema isEmail body = Inl issues"
    using None by (simp add: createLicenseSchema_def)
  then obtain msg where
    "validateBody (createLicenseSchema isEmail) body = Inl (BadRequestError msg)"
    using validateBody_fails[of "createLicenseSchema isEmail" body] by blast
  then have r: "createLicense_route isEmail s now key body = (Inl (BadRequestError msg), s)"
    by (simp add: createLicense_route_def)
  show ?thesis using out by (simp add: r)
next
  case (Some p)
  then have tier: "cb_plan body \<in> set plan_tiers"
    using parse_plan_None_iff[of "cb_plan body"] by auto
  have name: "plan_name p = cb_plan body" by (rule parse_plan_name[OF Some])
  show ?thesis
  proof (cases "email_issues isEmail (cb_email body) @ max_devices_issues (cb_max_devices body)")
    case (Cons i rest)
    then have bad: "\<not> ((\<forall>e. cb_email body = Some e \<longrightarrow> isEmail e)
                      \<and> (\<forall>n. cb_max_devices body = Some n \<longrightarrow> 0 < n))"
      using issues_none_iff[of isEmail "cb_email body" "cb_max_devices body"] by simp
    have "createLicenseSchema isEmail body = Inl (i # rest)"
      using Some Cons by (simp add: createLicenseSchema_def)
    then obtain msg where
      "validateBody (createLicenseSchema isEmail) body = Inl (BadRequestError msg)"
      using validateBody_fails[of "createLicenseSchema isEmail" body] by blast
    then have r: "createLicense_route isEmail s now key body = (Inl (BadRequestError msg), s)"
      by (simp add: createLicense_route_def)
    show ?thesis using tier bad by (simp add: r) blast
  next
    case Nil
    then have ok: "\<forall>n. cb_max_devices body = Some n \<longrightarrow> 0 < n"
      using issues_none_iff[of isEmail "cb_email body" "cb_max_devices body"] by simp
    have r: "createLicense_route isEmail s now key body
             = createLicense s now key
                 \<lparr>cl_email = cb_email body, cl_plan = p, cl_maxDevices = cb_max_devices body\<rparr>"
      using Some Nil
      by (simp add: createLicense_route_def validateBody_def createLicenseSchema_def)
    show ?thesis
    proof (cases "license_findUnique s key")
      case None
      show ?thesis using ok None tier name
        by (auto simp: r createLicense_def Let_def plan_tiers_def getMaxDevicesForPlan_by_name
            split: option.splits)
    next
      case (Some l)
      show ?thesis using tier Some by (simp add: r createLicense_def Let_def)
    qed
  qed
qed

text \<open>
  The theorem at the empty store: plan \<^verbatim>\<open>5 Devices\<close> gives 5 devices, the same plan
  with an override of 3 gives 3, and plan \<^verbatim>\<open>Pro\<close> fails.
\<close>

theorem createLicense_route_quota_witness:
  "(\<exists>l. fst (createLicense_route (\<lambda>e. True) ex_empty 5 ex_key (ex_body ''5 Devices'' None)) = Inr l
        \<and> lic_maxDevices l = 5 \<and> lic_isActive l \<and> lic_deviceCount l = 0)
   \<and> (\<exists>l. fst (createLicense_route (\<lambda>e. True) ex_empty 5 ex_key (ex_body ''5 Devices'' (Some 3))) = Inr l
        \<and> lic_maxDevices l = 3)
   \<and> (\<exists>msg. fst (createLicense_route (\<lambda>e. True) ex_empty 5 ex_key (ex_body ''Pro'' None))
          = Inl (BadRequestError msg))"
proof -
  have f: "license_findUnique ex_empty ex_key = None"
    by (simp add: license_findUnique_def ex_empty_def)
  have A: "\<exists>l. fst (createLicense_route (\<lambda>e. True) ex_empty 5 ex_key (ex_body ''5 Devices'' None)) = Inr l
        \<and> lic_maxDevices l = 5 \<and> lic_isActive l \<and> lic_deviceCount l = 0"
    using createLicense_route_quota[of "ex_body ''5 Devices'' None" "\<lambda>e. True" ex_empty 5 ex_key] f
    by (auto simp: ex_body_def plan_tiers_def)
  have B: "\<exists>l. fst (createLicense_route (\<lambda>e. True) ex_empty 5 ex_key (ex_body ''5 Devices'' (Some 3))) = Inr l
        \<and> lic_maxDevices l = 3"
    using createLicense_route_quota[of "ex_body ''5 Devices'' (Some 3)" "\<lambda>e. True" ex_empty 5 ex_key] f
    by (auto simp: ex_body_def plan_tiers_def)
  have C: "\<exists>msg. fst (createLicense_route (\<lambda>e. True) ex_empty 5 ex_key (ex_body ''Pro'' None))
          = Inl (BadRequestError msg)"
    using createLicense_route_quota[of "ex_body ''Pro'' None" "\<lambda>e. True" ex_empty 5 ex_key]
    by (simp add: ex_body_def plan_tiers_def)
  from A B C show ?thesis by blast
qed

section \<open>Two validations at once\<close>

text \<open>
  Claim C8 says that two validations of one license for different machines never both
  find the count below \<open>maxDevices\<close> and both insert. On a license of one device with
  no activation, when both lookups return before either call writes, both calls
  succeed and the license ends with two active activations.
\<close>

theorem validateLicense_interleaved_exceeds_quota:
  "lic_maxDevices (ex_license 1 True None) = 1
   \<and> lr_valid (fst (validateLicense_interleaved (ex_db (ex_license 1 True None) []) 10
         (ex_dto ''mac-A'') (ex_dto ''mac-B'')))
   \<and> lr_valid (fst (snd (validateLicense_interleaved (ex_db (ex_license 1 True None) []) 10
         (ex_dto ''mac-A'') (ex_dto ''mac-B''))))
   \<and> active_device_count
        (snd (snd (validateLicense_interleaved (ex_db (ex_license 1 True None) []) 10
           (ex_dto ''mac-A'') (ex_dto ''mac-B''))))
        (ex_license 1 True None) = 2"
  by (simp add: validateLicense_interleaved_def validateLicense_lookup_def
      validateLicense_decide_def license_findUnique_def active_activations_of_def
      activations_of_def active_device_count_def isExpired_def license_update_def
      licenseActivation_create_def ex_db_def ex_license_def ex_dto_def Let_def)


text \<open>One after the other, the second machine is refused.\<close>

lemma validateLicense_sequential_refuses_second:
  "lr_valid (fst (validateLicense (ex_db (ex_license 1 True None) []) 10 (ex_dto ''mac-A'')))
   \<and> lr_errorType (fst (validateLicense
        (snd (validateLicense (ex_db (ex_license 1 True None) []) 10 (ex_dto ''mac-A'')))
        10 (ex_dto ''mac-B''))) = Some max_devices_reached"
  using ex_key_valid
  by (simp add: validateLicense_def validateLicense_lookup_def
      validateLicense_decide_def license_findUnique_def active_activations_of_def
      activations_of_def active_device_count_def isExpired_def license_update_def
      licenseActivation_create_def ex_db_def ex_license_def ex_dto_def Let_def)

end
